theory Spec2Isabelle
  imports Main
begin

chapter \<open>The model\<close>

section \<open>Strings and case folding\<close>

text \<open>
  Go strings are byte sequences; they are modelled as \<^typ>\<open>string\<close>.  The library
  functions \<^verbatim>\<open>strings.ToLower\<close> and \<^verbatim>\<open>strings.EqualFold\<close> are modelled on ASCII
  text: the letters \<^verbatim>\<open>A\<close>..\<^verbatim>\<open>Z\<close> fold onto \<^verbatim>\<open>a\<close>..\<^verbatim>\<open>z\<close>, every other byte is
  compared as it is.
\<close>

definition toLower_char :: "char \<Rightarrow> char" where
  "toLower_char c =
     (case map_of (zip ''ABCDEFGHIJKLMNOPQRSTUVWXYZ'' ''abcdefghijklmnopqrstuvwxyz'') c of
        Some l \<Rightarrow> l
      | None \<Rightarrow> c)"

definition ToLower :: "string \<Rightarrow> string" where
  "ToLower s = map toLower_char s"

definition EqualFold :: "string \<Rightarrow> string \<Rightarrow> bool" where
  "EqualFold s t = (ToLower s = ToLower t)"

section \<open>Edge identities\<close>

text \<open>
  \<^verbatim>\<open>type EdgeID struct\<close>.  \<^verbatim>\<open>Index *int\<close> is a nullable integer: \<open>None\<close> is the
  nil pointer.
\<close>

record EdgeID =
  SrcPath :: "string list"
  SrcArrow :: bool
  DstPath :: "string list"
  DstArrow :: bool
  Index :: "int option"
  Glob :: bool

text \<open>
  The loop \<^verbatim>\<open>for i, s := range p { if !strings.EqualFold(s, q[i]) { return false } }\<close>
  of \<^verbatim>\<open>EdgeID.Match\<close>.  The result is \<open>True\<close> when the loop runs to its end.  The
  loop is only entered after \<^verbatim>\<open>len(p) == len(q)\<close> has been checked, so the read
  \<^verbatim>\<open>q[i]\<close> is in range; the third equation is never reached from \<open>Match\<close>.
\<close>

fun rangeEqualFold :: "string list \<Rightarrow> string list \<Rightarrow> bool" where
  "rangeEqualFold [] q = True"
| "rangeEqualFold (s # p) (t # q) = (if \<not> EqualFold s t then False else rangeEqualFold p q)"
| "rangeEqualFold (s # p) [] = False"

text \<open>\<^verbatim>\<open>func (eid *EdgeID) Match(eid2 *EdgeID) bool\<close>, check by check.\<close>

definition Match :: "EdgeID \<Rightarrow> EdgeID \<Rightarrow> bool" where
  "Match eid eid2 =
     (if Index eid \<noteq> None \<and> Index eid2 \<noteq> None \<and> the (Index eid) \<noteq> the (Index eid2)
        then False
      else if length (SrcPath eid) \<noteq> length (SrcPath eid2) then False
      else if SrcArrow eid \<noteq> SrcArrow eid2 then False
      else if \<not> rangeEqualFold (SrcPath eid) (SrcPath eid2) then False
      else if length (DstPath eid) \<noteq> length (DstPath eid2) then False
      else if DstArrow eid \<noteq> DstArrow eid2 then False
      else if \<not> rangeEqualFold (DstPath eid) (DstPath eid2) then False
      else True)"

section \<open>Errors\<close>

text \<open>
  Every way a Go function can fail to return a value is a value of the model:
  \<open>Panic\<close> is a run-time panic (a nil dereference, an index out of range, a failed
  type assertion), \<open>Diverges\<close> is a loop that never returns, and \<open>Err msg\<close> is a
  returned \<^verbatim>\<open>error\<close> with its message.  \<open>OutOfFuel\<close> is the answer of a recursion
  of the model that was given a bound on its depth and reached it; it says
  nothing about the Go function.
\<close>

datatype error = Panic | Diverges | Err string | OutOfFuel

definition bindE :: "error + 'a \<Rightarrow> ('a \<Rightarrow> error + 'b) \<Rightarrow> error + 'b" where
  "bindE x f = (case x of Inl e \<Rightarrow> Inl e | Inr v \<Rightarrow> f v)"

lemma bindE_Inl [simp]: "bindE (Inl e) f = Inl e"
  by (simp add: bindE_def)

lemma bindE_Inr [simp]: "bindE (Inr v) f = f v"
  by (simp add: bindE_def)

lemma bindE_cong [fundef_cong]:
  "x = y \<Longrightarrow> (\<And>v. y = Inr v \<Longrightarrow> f v = g v) \<Longrightarrow> bindE x f = bindE y g"
  by (cases y) (simp_all add: bindE_def)

lemma bindE_eq_Inr: "bindE x f = Inr r \<longleftrightarrow> (\<exists>v. x = Inr v \<and> f v = Inr r)"
  by (cases x) simp_all

section \<open>The syntax tree values the resolver consumes\<close>

text \<open>
  Modelled from the spec: the package \<^verbatim>\<open>d2ast\<close> is not part of the sources at hand.
  A path element (\<^verbatim>\<open>kp.Path[i].Unbox()\<close>) has its text (\<^verbatim>\<open>ScalarString()\<close>) and,
  when it is an unquoted string holding a glob, a non-nil \<^verbatim>\<open>Pattern\<close>.  A scalar has
  a type name, its text, and is or is not one of the string kinds (\<^verbatim>\<open>d2ast.String\<close>).
\<close>

record StringBox =
  ScalarString :: string
  Pattern :: "string list option"

type_synonym KeyPath = "StringBox list"

record ast_Edge =
  Src :: KeyPath
  Dst :: KeyPath

record ast_Scalar =
  Type :: string
  ScalarStr :: string
  IsString :: bool

section \<open>The tree, as a store of nodes\<close>

text \<open>
  The Go tree is a graph of heap objects linked by pointers in both directions
  (children and \<^verbatim>\<open>parent\<close>).  A pointer is an address, the store is the list of
  all objects allocated so far, and allocation appends to it.  A nil pointer, and
  a nil interface, is \<open>None\<close>.  A \<^verbatim>\<open>RefContext\<close> is an object of the store as
  well, since references are compared by the identity of their context.  Of a
  \<^verbatim>\<open>RefContext\<close> only \<^verbatim>\<open>Edge\<close> and \<^verbatim>\<open>ScopeMap\<close> are kept, the fields that the
  functions below read.  The Go fields \<^verbatim>\<open>Primary_\<close> and \<^verbatim>\<open>Map_\<close> are written
  \<open>Primary'\<close> and \<open>Map'\<close>.
\<close>

type_synonym addr = nat

record FieldReference =
  fr_String :: "StringBox option"
  fr_KeyPath :: "KeyPath option"
  fr_Context :: "addr option"

datatype node =
    ScalarNode (parent: "addr option") (Value: ast_Scalar)
  | FieldNode (parent: "addr option") (Name: string) (Primary': "addr option")
      (Composite: "addr option") (FReferences: "FieldReference list")
  | EdgeNode (parent: "addr option") (ID: EdgeID) (Primary': "addr option")
      (Map': "addr option") (EReferences: "addr option list")
  | ArrayNode (parent: "addr option") (Values: "addr list")
  | MapNode (parent: "addr option") (Fields: "addr list") (Edges: "addr list")
  | ContextNode (ctx_Edge: "ast_Edge option") (ctx_ScopeMap: "addr option")

type_synonym heap = "node list"

definition lookup :: "heap \<Rightarrow> addr \<Rightarrow> node option" where
  "lookup h a = (if a < length h then Some (h ! a) else None)"

definition alloc :: "heap \<Rightarrow> node \<Rightarrow> addr \<times> heap" where
  "alloc h n = (length h, h @ [n])"

fun is_Map :: "node option \<Rightarrow> bool" where
  "is_Map (Some (MapNode p fs es)) = True"
| "is_Map n = False"

fun is_Field :: "node option \<Rightarrow> bool" where
  "is_Field (Some (FieldNode p nm pr c rs)) = True"
| "is_Field n = False"

fun is_Edge :: "node option \<Rightarrow> bool" where
  "is_Edge (Some (EdgeNode p i pr m rs)) = True"
| "is_Edge n = False"

text \<open>
  \<^verbatim>\<open>n.Parent()\<close> for a \<^verbatim>\<open>Node\<close>.  An address outside the store, and a
  \<^verbatim>\<open>RefContext\<close> (which is no \<^verbatim>\<open>Node\<close>), cannot be written in Go; the model
  answers \<open>Panic\<close> there.
\<close>

definition Parent :: "heap \<Rightarrow> addr \<Rightarrow> error + addr option" where
  "Parent h n =
     (case lookup h n of
        None \<Rightarrow> Inl Panic
      | Some (ContextNode e s) \<Rightarrow> Inl Panic
      | Some nd \<Rightarrow> Inr (parent nd))"

text \<open>
  The four walks \<^verbatim>\<open>ParentMap\<close>, \<^verbatim>\<open>ParentField\<close>, \<^verbatim>\<open>ParentEdge\<close> and
  \<^verbatim>\<open>ParentBoard\<close> are the same loop
  \<^verbatim>\<open>for { n = n.Parent(); if n == nil { return nil }; if stop(n) { return n } }\<close>
  with four tests.  The loop is unbounded in Go.  In a store of \<open>length h\<close> objects
  a walk that has taken more than \<open>length h\<close> steps has visited some object twice
  and will go round for ever, so the loop is run with \<open>Suc (length h)\<close> units of
  fuel and running out of fuel is the value \<open>Diverges\<close>.
\<close>

fun climb :: "nat \<Rightarrow> heap \<Rightarrow> (addr \<Rightarrow> error + bool) \<Rightarrow> addr \<Rightarrow> error + addr option" where
  "climb 0 h stop n = Inl Diverges"
| "climb (Suc k) h stop n =
     (case Parent h n of
        Inl e \<Rightarrow> Inl e
      | Inr None \<Rightarrow> Inr None
      | Inr (Some p) \<Rightarrow>
          (case stop p of
             Inl e \<Rightarrow> Inl e
           | Inr True \<Rightarrow> Inr (Some p)
           | Inr False \<Rightarrow> climb k h stop p))"

definition ParentMap :: "heap \<Rightarrow> addr \<Rightarrow> error + addr option" where
  "ParentMap h n = climb (Suc (length h)) h (\<lambda>p. Inr (is_Map (lookup h p))) n"

definition ParentField :: "heap \<Rightarrow> addr \<Rightarrow> error + addr option" where
  "ParentField h n = climb (Suc (length h)) h (\<lambda>p. Inr (is_Field (lookup h p))) n"

definition ParentEdge :: "heap \<Rightarrow> addr \<Rightarrow> error + addr option" where
  "ParentEdge h n = climb (Suc (length h)) h (\<lambda>p. Inr (is_Edge (lookup h p))) n"

section \<open>Boards\<close>

type_synonym BoardKind = string

definition BoardLayer :: BoardKind where "BoardLayer = ''layer''"
definition BoardScenario :: BoardKind where "BoardScenario = ''scenario''"
definition BoardStep :: BoardKind where "BoardStep = ''step''"

text \<open>\<^verbatim>\<open>func (f *Field) Root() bool\<close>; a nil receiver panics on \<^verbatim>\<open>f.parent\<close>.\<close>

definition Field_Root :: "heap \<Rightarrow> addr option \<Rightarrow> error + bool" where
  "Field_Root h f =
     (case f of
        None \<Rightarrow> Inl Panic
      | Some a \<Rightarrow>
          (case lookup h a of
             Some (FieldNode p nm pr c rs) \<Rightarrow> Inr (p = None)
           | _ \<Rightarrow> Inl Panic))"

text \<open>The final \<^verbatim>\<open>if f == nil\<close> and \<^verbatim>\<open>switch f.Name\<close> of \<^verbatim>\<open>NodeBoardKind\<close>.\<close>

definition kindOfName :: "heap \<Rightarrow> addr option \<Rightarrow> error + BoardKind" where
  "kindOfName h f =
     (case f of
        None \<Rightarrow> Inr []
      | Some a \<Rightarrow>
          (case lookup h a of
             Some (FieldNode p nm pr c rs) \<Rightarrow>
               Inr (if nm = ''layers'' then BoardLayer
                    else if nm = ''scenarios'' then BoardScenario
                    else if nm = ''steps'' then BoardStep
                    else [])
           | _ \<Rightarrow> Inl Panic))"

text \<open>
  \<^verbatim>\<open>func NodeBoardKind(n Node) BoardKind\<close>, by the type switch on \<open>n\<close>.  The empty
  kind is the empty string.
\<close>

definition NodeBoardKind :: "heap \<Rightarrow> addr \<Rightarrow> error + BoardKind" where
  "NodeBoardKind h n =
     (case lookup h n of
        None \<Rightarrow> Inl Panic
      | Some (FieldNode p nm pr c rs) \<Rightarrow>
          (if p = None then Inr BoardLayer
           else bindE (ParentField h n) (kindOfName h))
      | Some (MapNode p fs es) \<Rightarrow>
          bindE (ParentField h n) (\<lambda>f.
          bindE (Field_Root h f) (\<lambda>r.
            if r then Inr BoardLayer
            else bindE (ParentField h (the f)) (kindOfName h)))
      | Some nd \<Rightarrow> Inr [])"

definition ParentBoard :: "heap \<Rightarrow> addr \<Rightarrow> error + addr option" where
  "ParentBoard h n =
     climb (Suc (length h)) h (\<lambda>p. bindE (NodeBoardKind h p) (\<lambda>k. Inr (k \<noteq> []))) n"

section \<open>Resolving an edge identity\<close>

text \<open>
  \<^verbatim>\<open>func countUnderscores(p []string) int\<close>: the index of the first element that is
  not \<^verbatim>\<open>_\<close>, and \<open>0\<close> when the loop finds none.
\<close>

fun countUnderscores_from :: "nat \<Rightarrow> string list \<Rightarrow> nat" where
  "countUnderscores_from i [] = 0"
| "countUnderscores_from i (el # p) =
     (if el \<noteq> ''_'' then i else countUnderscores_from (Suc i) p)"

definition countUnderscores :: "string list \<Rightarrow> nat" where
  "countUnderscores p = countUnderscores_from 0 p"

text \<open>
  One side of one iteration of the first loop of \<^verbatim>\<open>resolve\<close>:
  \<^verbatim>\<open>if p[0] == "_" { p = p[1:] } else { mf := ParentField(m); p = append([]string{mf.Name}, p...) }\<close>.
  Reading \<^verbatim>\<open>p[0]\<close> of an empty path and \<^verbatim>\<open>mf.Name\<close> of a nil \<^verbatim>\<open>mf\<close> panic.
\<close>

definition resolve_side :: "heap \<Rightarrow> addr \<Rightarrow> string list \<Rightarrow> error + string list" where
  "resolve_side h m p =
     (case p of
        [] \<Rightarrow> Inl Panic
      | s # rest \<Rightarrow>
          if s = ''_'' then Inr rest
          else bindE (ParentField h m) (\<lambda>mf.
                 case mf of
                   None \<Rightarrow> Inl Panic
                 | Some f \<Rightarrow>
                     (case lookup h f of
                        Some (FieldNode fp nm pr c rs) \<Rightarrow> Inr (nm # p)
                      | _ \<Rightarrow> Inl Panic)))"

text \<open>
  The first loop of \<^verbatim>\<open>resolve\<close>, \<^verbatim>\<open>for i := 0; i < maxUnderscores; i++\<close>; the
  first argument is the number of iterations still to run.
\<close>

fun resolve_underscores ::
  "nat \<Rightarrow> heap \<Rightarrow> string list \<times> string list \<times> addr \<Rightarrow> error + string list \<times> string list \<times> addr"
where
  "resolve_underscores 0 h st = Inr st"
| "resolve_underscores (Suc k) h (src, dst, m) =
     bindE (resolve_side h m src) (\<lambda>src'.
     bindE (resolve_side h m dst) (\<lambda>dst'.
     bindE (ParentMap h m) (\<lambda>pm.
       case pm of
         None \<Rightarrow> Inl (Err ''invalid underscore'')
       | Some m' \<Rightarrow> resolve_underscores k h (src', dst', m'))))"

text \<open>
  The second loop of \<^verbatim>\<open>resolve\<close>,
  \<^verbatim>\<open>for len(eid.SrcPath) > 1 && len(eid.DstPath) > 1\<close>, which moves a shared first
  segment into \<^verbatim>\<open>common\<close>.
\<close>

fun resolve_common ::
  "string list \<Rightarrow> string list \<Rightarrow> string list \<Rightarrow> string list \<times> string list \<times> string list"
where
  "resolve_common (s # s' # src) (d # d' # dst) common =
     (if \<not> EqualFold s d then (s # s' # src, d # d' # dst, common)
      else resolve_common (s' # src) (d' # dst) (common @ [s]))"
| "resolve_common src dst common = (src, dst, common)"

text \<open>
  \<^verbatim>\<open>func (eid *EdgeID) resolve(m *Map) (_ *EdgeID, _ *Map, common []string, _ error)\<close>.
  The identity is copied first, so the caller's \<^verbatim>\<open>eid\<close> is not changed.
\<close>

definition resolve :: "heap \<Rightarrow> EdgeID \<Rightarrow> addr \<Rightarrow> error + EdgeID \<times> addr \<times> string list" where
  "resolve h eid m =
     (let maxUnderscores = max (countUnderscores (SrcPath eid)) (countUnderscores (DstPath eid))
      in bindE (resolve_underscores maxUnderscores h (SrcPath eid, DstPath eid, m))
           (\<lambda>(src, dst, m').
              case resolve_common src dst [] of
                (src', dst', common) \<Rightarrow>
                  Inr (eid\<lparr>SrcPath := src', DstPath := dst'\<rparr>, m', common)))"

section \<open>The underscore walk, as specified\<close>

text \<open>
  The walk as the specification words it.  The leading-underscore run of a path
  is the number of \<^verbatim>\<open>_\<close> segments before its first other segment.  In one
  iteration a side whose head is \<^verbatim>\<open>_\<close> drops it, a side whose head is not \<^verbatim>\<open>_\<close>
  gets the name of the owning Field of \<open>m\<close> in front, and \<open>m\<close> moves to its parent
  Map; a nil parent Map ends the walk with the error \<^verbatim>\<open>invalid underscore\<close>.
\<close>

definition leadingUnderscores :: "string list \<Rightarrow> nat" where
  "leadingUnderscores p = length (takeWhile (\<lambda>s. s = ''_'') p)"

definition ownerName :: "heap \<Rightarrow> addr \<Rightarrow> error + string" where
  "ownerName h m =
     bindE (ParentField h m) (\<lambda>mf.
       case mf of
         None \<Rightarrow> Inl Panic
       | Some f \<Rightarrow>
           (case lookup h f of
              Some (FieldNode fp nm pr c rs) \<Rightarrow> Inr nm
            | _ \<Rightarrow> Inl Panic))"

definition promote_side :: "heap \<Rightarrow> addr \<Rightarrow> string list \<Rightarrow> error + string list" where
  "promote_side h m p =
     (if hd p = ''_'' then Inr (tl p) else bindE (ownerName h m) (\<lambda>nm. Inr (nm # p)))"

fun underscore_walk ::
  "nat \<Rightarrow> heap \<Rightarrow> string list \<times> string list \<times> addr \<Rightarrow> error + string list \<times> string list \<times> addr"
where
  "underscore_walk 0 h st = Inr st"
| "underscore_walk (Suc n) h (src, dst, m) =
     bindE (promote_side h m src) (\<lambda>src'.
     bindE (promote_side h m dst) (\<lambda>dst'.
     bindE (ParentMap h m) (\<lambda>pm.
       case pm of
         None \<Rightarrow> Inl (Err ''invalid underscore'')
       | Some m' \<Rightarrow> underscore_walk n h (src', dst', m'))))"

definition hasName :: "string list \<Rightarrow> bool" where
  "hasName p = (\<exists>s\<in>set p. s \<noteq> ''_'')"

section \<open>Example trees\<close>

text \<open>
  The synthetic root Field as \<^verbatim>\<open>initRoot\<close> makes it: named \<^verbatim>\<open>root\<close>, without parent
  and composite, with one reference whose context (at address \<open>c\<close>) has the root
  Map as its scope.  In every example tree the root Field is at address 0 and the
  root Map at address 1.
\<close>

definition rootField :: "addr \<Rightarrow> node" where
  "rootField c =
     FieldNode None ''root'' None None
       [\<lparr>fr_String = None, fr_KeyPath = None, fr_Context = Some c\<rparr>]"

definition rootContext :: node where
  "rootContext = ContextNode None (Some 1)"

text \<open>
  The tree of the program \<^verbatim>\<open>a: {}\<close>: the synthetic root Field (address 0), the
  root Map (1), the Field \<^verbatim>\<open>a\<close> (2) and its Map (3).
\<close>

definition tree_a :: heap where
  "tree_a =
     [rootField 4,
      MapNode (Some 0) [2] [],
      FieldNode (Some 1) ''a'' None (Some 3) [],
      MapNode (Some 2) [] [],
      rootContext]"

section \<open>Board kinds, structurally\<close>

text \<open>
  The structural notions of the board classification.  A node is the tree root
  when it is a Field without parent, or a Map whose owning Field has no parent.
  The container of a Field is its nearest enclosing Field; the container of a
  Map is the nearest enclosing Field of its owning Field.  A node sits directly
  under \<open>nm\<close> when its container is named \<open>nm\<close>, and that container is at the root
  when the Map that holds it is the root Map.
\<close>

definition treeRoot :: "heap \<Rightarrow> addr \<Rightarrow> bool" where
  "treeRoot h n =
     (case lookup h n of
        Some (FieldNode p nm pr c rs) \<Rightarrow> p = None
      | Some (MapNode p fs es) \<Rightarrow>
          (case ParentField h n of
             Inr (Some f) \<Rightarrow> Field_Root h (Some f) = Inr True
           | _ \<Rightarrow> False)
      | _ \<Rightarrow> False)"

definition container :: "heap \<Rightarrow> addr \<Rightarrow> error + addr option" where
  "container h n =
     (case lookup h n of
        Some (MapNode p fs es) \<Rightarrow>
          bindE (ParentField h n) (\<lambda>f.
            case f of None \<Rightarrow> Inl Panic | Some f' \<Rightarrow> ParentField h f')
      | _ \<Rightarrow> ParentField h n)"

definition directlyUnder :: "heap \<Rightarrow> string \<Rightarrow> addr \<Rightarrow> bool" where
  "directlyUnder h nm n =
     (case container h n of
        Inr (Some c) \<Rightarrow>
          (case lookup h c of
             Some (FieldNode p cn pr co rs) \<Rightarrow> cn = nm
           | _ \<Rightarrow> False)
      | _ \<Rightarrow> False)"

definition containerAtRoot :: "heap \<Rightarrow> addr \<Rightarrow> bool" where
  "containerAtRoot h n =
     (case container h n of
        Inr (Some c) \<Rightarrow>
          (case ParentMap h c of
             Inr (Some m) \<Rightarrow> treeRoot h m
           | _ \<Rightarrow> False)
      | _ \<Rightarrow> False)"

text \<open>
  The tree of the program \<^verbatim>\<open>layers: { x: { layers: { y } } }\<close>: the root Field (0)
  and root Map (1), the Field \<^verbatim>\<open>layers\<close> (2) with its Map (3), the board \<^verbatim>\<open>x\<close>
  (4) with its Map (5), the inner Field \<^verbatim>\<open>layers\<close> (6) with its Map (7), and the
  Field \<^verbatim>\<open>y\<close> (8).
\<close>

definition tree_nested_layers :: heap where
  "tree_nested_layers =
     [rootField 9,
      MapNode (Some 0) [2] [],
      FieldNode (Some 1) ''layers'' None (Some 3) [],
      MapNode (Some 2) [4] [],
      FieldNode (Some 3) ''x'' None (Some 5) [],
      MapNode (Some 4) [6] [],
      FieldNode (Some 5) ''layers'' None (Some 7) [],
      MapNode (Some 6) [8] [],
      FieldNode (Some 7) ''y'' None None [],
      rootContext]"

section \<open>Looking up fields and edges\<close>

text \<open>
  \<^verbatim>\<open>func (n *Field) Map() *Map\<close> for a non-nil Field: nil when there is no
  composite or the composite is an Array, the composite itself when it is a Map.
\<close>

definition Field_Map :: "heap \<Rightarrow> addr \<Rightarrow> error + addr option" where
  "Field_Map h f =
     (case lookup h f of
        Some (FieldNode p nm pr c rs) \<Rightarrow>
          (case c of
             None \<Rightarrow> Inr None
           | Some ca \<Rightarrow>
               (case lookup h ca of
                  Some (MapNode mp fs es) \<Rightarrow> Inr (Some ca)
                | Some (ArrayNode ap vs) \<Rightarrow> Inr None
                | _ \<Rightarrow> Inl Panic))
      | _ \<Rightarrow> Inl Panic)"

text \<open>
  \<^verbatim>\<open>func (m *Map) getField(ida []string) *Field\<close>.  \<open>getField_range\<close> is its loop
  \<^verbatim>\<open>for _, f := range m.Fields\<close> over the fields still to visit: a field with
  another name is skipped, a matching field ends the search when the path ends
  here or when it has a Map, and a matching field without Map is passed over.
\<close>

fun getField :: "heap \<Rightarrow> addr \<Rightarrow> string list \<Rightarrow> error + addr option"
  and getField_range :: "heap \<Rightarrow> addr list \<Rightarrow> string \<Rightarrow> string list \<Rightarrow> error + addr option"
where
  "getField h m [] = Inr None"
| "getField h m (s # rest) =
     (if s = ''_'' then Inr None
      else (case lookup h m of
              Some (MapNode p fs es) \<Rightarrow> getField_range h fs s rest
            | _ \<Rightarrow> Inl Panic))"
| "getField_range h [] s rest = Inr None"
| "getField_range h (f # fs) s rest =
     (case lookup h f of
        Some (FieldNode p nm pr c rs) \<Rightarrow>
          if \<not> EqualFold nm s then getField_range h fs s rest
          else if rest = [] then Inr (Some f)
          else (case Field_Map h f of
                  Inl e \<Rightarrow> Inl e
                | Inr None \<Rightarrow> getField_range h fs s rest
                | Inr (Some fm) \<Rightarrow> getField h fm rest)
      | _ \<Rightarrow> Inl Panic)"

text \<open>
  \<^verbatim>\<open>func (m *Map) GetField(ida ...string) *Field\<close>.  Its loop
  \<^verbatim>\<open>for len(ida) > 0 && ida[0] == "_" { m = ParentMap(m); if m == nil { return nil } }\<close>
  never shortens \<^verbatim>\<open>ida\<close>: once entered it climbs until \<^verbatim>\<open>ParentMap\<close> answers nil.
  Each step moves to a proper ancestor, so \<open>Suc (length h)\<close> units of fuel are
  enough unless the parent links form a cycle.
\<close>

fun GetField_climb :: "nat \<Rightarrow> heap \<Rightarrow> addr \<Rightarrow> error + addr option" where
  "GetField_climb 0 h m = Inl Diverges"
| "GetField_climb (Suc k) h m =
     (case ParentMap h m of
        Inl e \<Rightarrow> Inl e
      | Inr None \<Rightarrow> Inr None
      | Inr (Some m') \<Rightarrow> GetField_climb k h m')"

definition GetField :: "heap \<Rightarrow> addr \<Rightarrow> string list \<Rightarrow> error + addr option" where
  "GetField h m ida =
     (if ida \<noteq> [] \<and> hd ida = ''_'' then GetField_climb (Suc (length h)) h m
      else getField h m ida)"

text \<open>
  The loop \<^verbatim>\<open>for _, e := range m.Edges { if e.ID.Match(eid) { ea = append(ea, e) } }\<close>
  of \<^verbatim>\<open>GetEdges\<close>.
\<close>

fun matchingEdges :: "heap \<Rightarrow> addr list \<Rightarrow> EdgeID \<Rightarrow> error + addr list" where
  "matchingEdges h [] eid = Inr []"
| "matchingEdges h (e # es) eid =
     (case lookup h e of
        Some (EdgeNode p i pr mp rs) \<Rightarrow>
          bindE (matchingEdges h es eid) (\<lambda>ea. Inr (if Match i eid then e # ea else ea))
      | _ \<Rightarrow> Inl Panic)"

text \<open>
  \<open>resolve\<close> never makes the two paths longer in total, and every segment moved
  into \<^verbatim>\<open>common\<close> shortens both.  This is what makes the recursion of
  \<^verbatim>\<open>GetEdges\<close> end.
\<close>

lemma resolve_common_length:
  "resolve_common src dst c = (src', dst', c') \<Longrightarrow>
   length src' + length dst' + 2 * length c' = length src + length dst + 2 * length c"
  by (induction src dst c rule: resolve_common.induct) (auto split: if_splits)

lemma resolve_side_length:
  "resolve_side h m p = Inr p' \<Longrightarrow> length p' \<le> Suc (length p)"
  by (cases p)
     (auto simp: resolve_side_def bindE_def
           split: if_split_asm sum.split_asm option.split_asm node.split_asm)

lemma resolve_underscores_length:
  "resolve_underscores n h (src, dst, m) = Inr (src', dst', m') \<Longrightarrow>
   length src' \<le> length src + n \<and> length dst' \<le> length dst + n"
proof (induction n arbitrary: src dst m)
  case 0
  then show ?case by simp
next
  case (Suc n)
  from Suc.prems obtain s d m1 where
    s: "resolve_side h m src = Inr s" and d: "resolve_side h m dst = Inr d" and
    r: "resolve_underscores n h (s, d, m1) = Inr (src', dst', m')"
    by (auto simp: bindE_eq_Inr split: option.splits)
  from Suc.IH [OF r] resolve_side_length [OF s] resolve_side_length [OF d]
  show ?case by simp
qed

lemma resolve_underscores_drop_src:
  "resolve_underscores n h (replicate n ''_'' @ src, dst, m) = Inr (src', dst', m') \<Longrightarrow> src' = src"
proof (induction n arbitrary: dst m)
  case 0
  then show ?case by simp
next
  case (Suc n)
  then show ?case
    by (auto simp: bindE_eq_Inr resolve_side_def split: option.splits)
qed

lemma resolve_underscores_drop_dst:
  "resolve_underscores n h (src, replicate n ''_'' @ dst, m) = Inr (src', dst', m') \<Longrightarrow> dst' = dst"
proof (induction n arbitrary: src m)
  case 0
  then show ?case by simp
next
  case (Suc n)
  from Suc.prems obtain s m1 where
    r: "resolve_underscores n h (s, replicate n ''_'' @ dst, m1) = Inr (src', dst', m')"
    by (auto simp: bindE_eq_Inr resolve_side_def [of h m "''_'' # _"] split: option.splits)
  from Suc.IH [OF r] show ?case .
qed

lemma countUnderscores_from_replicate:
  "countUnderscores_from i p = n \<Longrightarrow> n = 0 \<or> (i \<le> n \<and> (\<exists>q. p = replicate (n - i) ''_'' @ q))"
proof (induction p arbitrary: i)
  case Nil
  then show ?case by simp
next
  case (Cons el p)
  show ?case
  proof (cases "el = ''_''")
    case True
    with Cons.prems have "countUnderscores_from (Suc i) p = n" by simp
    from Cons.IH [OF this] show ?thesis
    proof
      assume "n = 0" then show ?thesis by simp
    next
      assume "Suc i \<le> n \<and> (\<exists>q. p = replicate (n - Suc i) ''_'' @ q)"
      then obtain q where "Suc i \<le> n" and q: "p = replicate (n - Suc i) ''_'' @ q" by blast
      then have "el # p = replicate (n - i) ''_'' @ q"
        using True by (simp add: Suc_diff_Suc replicate_Suc [symmetric] del: replicate_Suc)
      with \<open>Suc i \<le> n\<close> show ?thesis by auto
    qed
  next
    case False
    with Cons.prems show ?thesis by auto
  qed
qed

lemma countUnderscores_replicate:
  "\<exists>q. p = replicate (countUnderscores p) ''_'' @ q"
  using countUnderscores_from_replicate [of 0 p "countUnderscores p"]
  by (auto simp: countUnderscores_def)

lemma resolve_length:
  assumes "resolve h eid m = Inr (eid', m', common)"
  shows "length (SrcPath eid') + length (DstPath eid') + 2 * length common
           \<le> length (SrcPath eid) + length (DstPath eid)"
proof -
  define n where "n = max (countUnderscores (SrcPath eid)) (countUnderscores (DstPath eid))"
  from assms obtain src dst mm where
    u0: "resolve_underscores n h (SrcPath eid, DstPath eid, m) = Inr (src, dst, mm)" and
    r: "(case resolve_common src dst [] of
           (s', d', c') \<Rightarrow> Inr (eid\<lparr>SrcPath := s', DstPath := d'\<rparr>, mm, c'))
        = (Inr (eid', m', common) :: error + EdgeID \<times> addr \<times> string list)"
    by (auto simp: resolve_def n_def bindE_eq_Inr)
  obtain s' d' c' where rc: "resolve_common src dst [] = (s', d', c')"
    using prod_cases3 by blast
  from r rc have "mm = m'" and "c' = common" and e: "eid' = eid\<lparr>SrcPath := s', DstPath := d'\<rparr>"
    by simp_all
  with u0 rc have
    u: "resolve_underscores n h (SrcPath eid, DstPath eid, m) = Inr (src, dst, m')" and
    c: "resolve_common src dst [] = (SrcPath eid', DstPath eid', common)"
    by simp_all
  have "length src + length dst \<le> length (SrcPath eid) + length (DstPath eid)"
  proof (cases "countUnderscores (SrcPath eid) \<le> countUnderscores (DstPath eid)")
    case True
    then have n: "n = countUnderscores (DstPath eid)" by (simp add: n_def)
    obtain q where q: "DstPath eid = replicate n ''_'' @ q"
      using countUnderscores_replicate [of "DstPath eid"] n by auto
    from u have "dst = q"
      unfolding q by (rule resolve_underscores_drop_dst)
    moreover have "length (DstPath eid) = n + length q"
      by (simp add: q)
    ultimately show ?thesis
      using resolve_underscores_length [OF u] by simp
  next
    case False
    then have n: "n = countUnderscores (SrcPath eid)" by (simp add: n_def)
    obtain q where q: "SrcPath eid = replicate n ''_'' @ q"
      using countUnderscores_replicate [of "SrcPath eid"] n by auto
    from u have "src = q"
      unfolding q by (rule resolve_underscores_drop_src)
    moreover have "length (SrcPath eid) = n + length q"
      by (simp add: q)
    ultimately show ?thesis
      using resolve_underscores_length [OF u] by simp
  qed
  with resolve_common_length [OF c] show ?thesis by simp
qed

text \<open>
  \<^verbatim>\<open>func (m *Map) GetEdges(eid *EdgeID, refctx *RefContext) []*Edge\<close> for a nil
  \<^verbatim>\<open>refctx\<close>, the only way \<^verbatim>\<open>createEdge2\<close> calls it.  An error of \<open>resolve\<close> gives
  the nil slice.  With a common prefix the search continues in the Map of the
  Field the prefix names, with the trimmed identity.
\<close>

function GetEdges :: "heap \<Rightarrow> addr \<Rightarrow> EdgeID \<Rightarrow> error + addr list" where
  "GetEdges h m eid =
     (case resolve h eid m of
        Inl (Err msg) \<Rightarrow> Inr []
      | Inl e \<Rightarrow> Inl e
      | Inr (eid', m', common) \<Rightarrow>
          if length common > 0 then
            bindE (GetField h m' common) (\<lambda>f.
              case f of
                None \<Rightarrow> Inr []
              | Some f' \<Rightarrow>
                  bindE (Field_Map h f') (\<lambda>fm.
                    case fm of
                      None \<Rightarrow> Inr []
                    | Some fm' \<Rightarrow> GetEdges h fm' eid'))
          else
            (case lookup h m' of
               Some (MapNode p fs es) \<Rightarrow> matchingEdges h es eid'
             | _ \<Rightarrow> Inl Panic))"
  by pat_completeness auto
termination
proof (relation "measure (\<lambda>(h, m, eid). length (SrcPath eid) + length (DstPath eid))")
  show "wf (measure (\<lambda>(h, m, eid). length (SrcPath eid) + length (DstPath eid)))"
    by simp
next
  fix h m eid x2 eid' y m' common and fm' :: addr
  assume "resolve h eid m = Inr x2" "(eid', y) = x2" "(m', common) = y" "0 < length common"
  then have "resolve h eid m = Inr (eid', m', common)" by simp
  from resolve_length [OF this] \<open>0 < length common\<close>
  show "((h, fm', eid'), h, m, eid) \<in> measure (\<lambda>(h, m, eid). length (SrcPath eid) + length (DstPath eid))"
    by (cases common) auto
qed

declare GetEdges.simps [simp del]

section \<open>Creating one edge\<close>

text \<open>
  \<^verbatim>\<open>d2parser.Errorf(refctx.Edge.Src, msg)\<close> and its siblings: the error value is
  modelled by its message.  Building it reads \<^verbatim>\<open>refctx.Edge\<close>, which panics when
  the context holds no edge.
\<close>

definition Errorf_edge :: "heap \<Rightarrow> addr \<Rightarrow> string \<Rightarrow> error" where
  "Errorf_edge h refctx msg =
     (case lookup h refctx of
        Some (ContextNode (Some e) sm) \<Rightarrow> Err msg
      | _ \<Rightarrow> Panic)"

text \<open>
  \<^verbatim>\<open>func (m *Map) createEdge2(eid *EdgeID, refctx *RefContext, src, dst *Field) (*Edge, error)\<close>.
  The result is the outcome together with the store it leaves.
\<close>

definition createEdge2 ::
  "heap \<Rightarrow> addr \<Rightarrow> EdgeID \<Rightarrow> addr \<Rightarrow> addr \<Rightarrow> addr \<Rightarrow> (error + addr) \<times> heap"
where
  "createEdge2 h m eid refctx src dst =
     (case NodeBoardKind h src of
        Inl e \<Rightarrow> (Inl e, h)
      | Inr ks \<Rightarrow>
     if ks \<noteq> [] then (Inl (Errorf_edge h refctx ''cannot create edges between boards''), h)
     else
     (case NodeBoardKind h dst of
        Inl e \<Rightarrow> (Inl e, h)
      | Inr kd \<Rightarrow>
     if kd \<noteq> [] then (Inl (Errorf_edge h refctx ''cannot create edges between boards''), h)
     else
     (case ParentBoard h src of
        Inl e \<Rightarrow> (Inl e, h)
      | Inr bs \<Rightarrow>
     (case ParentBoard h dst of
        Inl e \<Rightarrow> (Inl e, h)
      | Inr bd \<Rightarrow>
     if bs \<noteq> bd then (Inl (Errorf_edge h refctx ''cannot create edges between boards''), h)
     else
     (case GetEdges h m (eid\<lparr>Index := None, Glob := True\<rparr>) of
        Inl e \<Rightarrow> (Inl e, h)
      | Inr ea \<Rightarrow>
          (let index = int (length ea);
               eid' = eid\<lparr>Index := Some index, Glob := False\<rparr>;
               (e, h') = alloc h (EdgeNode (Some m) eid' None None [Some refctx])
           in case lookup h' m of
                Some (MapNode p fs es) \<Rightarrow> (Inr e, h'[m := MapNode p fs (es @ [e])])
              | _ \<Rightarrow> (Inl Panic, h')))))))"

text \<open>
  The tree of \<^verbatim>\<open>layers: { x: { y } }\<close> and \<^verbatim>\<open>b\<close> after the endpoints of the edge
  \<^verbatim>\<open>layers.x.y -> b\<close> have been resolved: root Field (0), root Map (1), \<^verbatim>\<open>layers\<close>
  (2) with Map (3), the board \<^verbatim>\<open>x\<close> (4) with Map (5), \<^verbatim>\<open>y\<close> (6), the context of
  the edge (7) and \<^verbatim>\<open>b\<close> (8).
\<close>

definition edge_y_b :: ast_Edge where
  "edge_y_b =
     \<lparr>Src = [\<lparr>ScalarString = ''layers'', Pattern = None\<rparr>,
             \<lparr>ScalarString = ''x'', Pattern = None\<rparr>,
             \<lparr>ScalarString = ''y'', Pattern = None\<rparr>],
      Dst = [\<lparr>ScalarString = ''b'', Pattern = None\<rparr>]\<rparr>"

definition tree_boards :: heap where
  "tree_boards =
     [rootField 9,
      MapNode (Some 0) [2, 8] [],
      FieldNode (Some 1) ''layers'' None (Some 3) [],
      MapNode (Some 2) [4] [],
      FieldNode (Some 3) ''x'' None (Some 5) [],
      MapNode (Some 4) [6] [],
      FieldNode (Some 5) ''y'' None None [],
      ContextNode (Some edge_y_b) (Some 1),
      FieldNode (Some 1) ''b'' None None [],
      rootContext]"

section \<open>What the other files provide\<close>

text \<open>
  The keyword tables of the package \<^verbatim>\<open>d2graph\<close>, the pattern functions
  \<^verbatim>\<open>matchPattern\<close> and \<^verbatim>\<open>doubleGlob\<close> of this package, and the \<^verbatim>\<open>d2ast\<close>
  functions \<^verbatim>\<open>HasGlob\<close>, \<^verbatim>\<open>HasDoubleGlob\<close> and \<^verbatim>\<open>MakeKeyPath\<close> are defined in
  files that are not at hand.  They are parameters of the model.  A table is the
  list of its keys.  \<^verbatim>\<open>m.doubleGlob(pattern)\<close> answers the fields it selected
  and whether the pattern is a double glob at all.
\<close>

record ext =
  ReservedKeywords :: "string list"
  CompositeReservedKeywords :: "string list"
  BoardKeywords :: "string list"
  SimpleReservedKeywords :: "string list"
  ReservedKeywordHolders :: "string list"
  matchPattern :: "string \<Rightarrow> string list \<Rightarrow> bool"
  doubleGlob :: "heap \<Rightarrow> addr \<Rightarrow> string list \<Rightarrow> error + addr list \<times> bool"
  HasGlob :: "KeyPath \<Rightarrow> bool"
  HasDoubleGlob :: "KeyPath \<Rightarrow> bool"
  MakeKeyPath :: "string list \<Rightarrow> KeyPath"

text \<open>\<^verbatim>\<open>func findBoardKeyword(ida ...string) int\<close>, with its loop from index \<open>i\<close> on.\<close>

fun findBoardKeyword_from :: "ext \<Rightarrow> int \<Rightarrow> string list \<Rightarrow> int" where
  "findBoardKeyword_from x i [] = - 1"
| "findBoardKeyword_from x i (s # ida) =
     (if s \<in> set (BoardKeywords x) then i else findBoardKeyword_from x (i + 1) ida)"

definition findBoardKeyword :: "ext \<Rightarrow> string list \<Rightarrow> int" where
  "findBoardKeyword x ida = findBoardKeyword_from x 0 ida"

text \<open>\<^verbatim>\<open>func findProhibitedEdgeKeyword(ida ...string) int\<close>.\<close>

fun findProhibitedEdgeKeyword_from :: "ext \<Rightarrow> int \<Rightarrow> string list \<Rightarrow> int" where
  "findProhibitedEdgeKeyword_from x i [] = - 1"
| "findProhibitedEdgeKeyword_from x i (s # ida) =
     (if s \<in> set (SimpleReservedKeywords x) then i
      else if s \<in> set (ReservedKeywordHolders x) then i
      else findProhibitedEdgeKeyword_from x (i + 1) ida)"

definition findProhibitedEdgeKeyword :: "ext \<Rightarrow> string list \<Rightarrow> int" where
  "findProhibitedEdgeKeyword x ida = findProhibitedEdgeKeyword_from x 0 ida"

section \<open>Finding and creating fields\<close>

text \<open>
  \<^verbatim>\<open>f.Composite = &Map{parent: f}\<close> for a Field \<open>f\<close>: a fresh empty Map owned by
  \<open>f\<close>.
\<close>

definition newMap :: "heap \<Rightarrow> addr \<Rightarrow> addr \<times> heap" where
  "newMap h f =
     (case alloc h (MapNode (Some f) [] []) of
        (a, h') \<Rightarrow>
          (a, (case lookup h' f of
                 Some (FieldNode p nm pr c rs) \<Rightarrow> h'[f := FieldNode p nm pr (Some a) rs]
               | _ \<Rightarrow> h')))"

text \<open>
  \<^verbatim>\<open>if f.Map() == nil { f.Composite = &Map{parent: f} }\<close> followed by \<^verbatim>\<open>f.Map()\<close>.
\<close>

definition ensureMap :: "heap \<Rightarrow> addr \<Rightarrow> (error + addr) \<times> heap" where
  "ensureMap h f =
     (case Field_Map h f of
        Inl e \<Rightarrow> (Inl e, h)
      | Inr (Some a) \<Rightarrow> (Inr a, h)
      | Inr None \<Rightarrow> (case newMap h f of (a, h') \<Rightarrow> (Inr a, h')))"

text \<open>
  The search \<^verbatim>\<open>for _, f := range m.Fields { if !strings.EqualFold(f.Name, head) { continue } ... return }\<close>
  of \<^verbatim>\<open>ensureField\<close>: the first field whose name equals \<open>head\<close> up to case.
\<close>

fun findField :: "heap \<Rightarrow> addr list \<Rightarrow> string \<Rightarrow> error + addr option" where
  "findField h [] head = Inr None"
| "findField h (f # fs) head =
     (case lookup h f of
        Some (FieldNode p nm pr c rs) \<Rightarrow>
          if \<not> EqualFold nm head then findField h fs head else Inr (Some f)
      | _ \<Rightarrow> Inl Panic)"

text \<open>
  \<^verbatim>\<open>f.References = append(f.References, &FieldReference{...})\<close>, done only for a
  non-nil \<^verbatim>\<open>refctx\<close>.
\<close>

definition addReference :: "heap \<Rightarrow> addr \<Rightarrow> StringBox \<Rightarrow> KeyPath \<Rightarrow> addr option \<Rightarrow> heap" where
  "addReference h f sb kp refctx =
     (case refctx of
        None \<Rightarrow> h
      | Some rc \<Rightarrow>
          (case lookup h f of
             Some (FieldNode p nm pr c rs) \<Rightarrow>
               h[f := FieldNode p nm pr c
                        (rs @ [\<lparr>fr_String = Some sb, fr_KeyPath = Some kp, fr_Context = Some rc\<rparr>])]
           | _ \<Rightarrow> h))"

definition isArray :: "heap \<Rightarrow> addr option \<Rightarrow> bool" where
  "isArray h c =
     (case c of
        None \<Rightarrow> False
      | Some a \<Rightarrow> (case lookup h a of Some (ArrayNode p vs) \<Rightarrow> True | _ \<Rightarrow> False))"

definition quoted :: "string \<Rightarrow> string" where
  "quoted s = [CHR 0x22] @ s @ [CHR 0x22]"

text \<open>
  The two guards \<^verbatim>\<open>if cond && NodeBoardKind(m) == "" { return d2parser.Errorf(..., "%s is only allowed at a board root", head) }\<close>
  of \<^verbatim>\<open>ensureField\<close>; \<^verbatim>\<open>NodeBoardKind\<close> is only evaluated when \<open>cond\<close> holds.
\<close>

definition boardRootOnly :: "heap \<Rightarrow> addr \<Rightarrow> string \<Rightarrow> bool \<Rightarrow> error option" where
  "boardRootOnly h m head cond =
     (if cond then
        (case NodeBoardKind h m of
           Inl e \<Rightarrow> Some e
         | Inr k \<Rightarrow>
             if k = [] then Some (Err (head @ '' is only allowed at a board root'')) else None)
      else None)"

text \<open>
  \<^verbatim>\<open>func (m *Map) ensureField(i int, kp *d2ast.KeyPath, refctx *RefContext, create bool, fa *[]*Field) error\<close>.
  The slice behind \<^verbatim>\<open>fa\<close> and the store are threaded through; the outcome is the
  error (if any), the slice and the store.  \<open>ensureField_range\<close> is the loop over
  candidate fields of the two glob branches: over \<^verbatim>\<open>m.Fields\<close> with the test
  \<^verbatim>\<open>matchPattern(f.Name, us.Pattern)\<close> for a single glob (\<open>Some pat\<close>), and over the
  fields selected by \<^verbatim>\<open>doubleGlob\<close> without test (\<open>None\<close>).  The loops run after
  \<^verbatim>\<open>kp.Path[i]\<close> has been read, so \<open>i\<close> is in range there.
\<close>

function ensureField ::
    "ext \<Rightarrow> nat \<Rightarrow> KeyPath \<Rightarrow> addr option \<Rightarrow> bool \<Rightarrow> addr \<Rightarrow> addr list \<Rightarrow> heap
      \<Rightarrow> error option \<times> addr list \<times> heap"
  and ensureField_range ::
    "ext \<Rightarrow> nat \<Rightarrow> KeyPath \<Rightarrow> addr option \<Rightarrow> bool \<Rightarrow> string list option \<Rightarrow> addr list
      \<Rightarrow> addr list \<Rightarrow> heap \<Rightarrow> error option \<times> addr list \<times> heap"
where
  "ensureField x i kp refctx create m fa h =
     (if length kp \<le> i then (Some Panic, fa, h)
      else
        (case Pattern (kp ! i) of
           Some pat \<Rightarrow>
             (case doubleGlob x h m pat of
                Inl e \<Rightarrow> (Some e, fa, h)
              | Inr (fa2, ok) \<Rightarrow>
                  if ok then
                    (if Suc i = length kp then (None, fa @ fa2, h)
                     else ensureField_range x i kp refctx create None fa2 fa h)
                  else
                    (case lookup h m of
                       Some (MapNode p fs es) \<Rightarrow>
                         ensureField_range x i kp refctx create (Some pat) fs fa h
                     | _ \<Rightarrow> (Some Panic, fa, h)))
         | None \<Rightarrow>
             (let head0 = ScalarString (kp ! i);
                  reserved = (ToLower head0 \<in> set (ReservedKeywords x));
                  head = (if reserved then ToLower head0 else head0)
              in
              if reserved \<and> head \<notin> set (CompositeReservedKeywords x) \<and> Suc i < length kp
                then (Some (Err (quoted head @ '' must be the last part of the key'')), fa, h)
              else if head = ''_''
                then (Some (Err (''parent '' @ quoted ''_'' @
                        '' can only be used in the beginning of paths, e.g. '' @ quoted ''_.x'')),
                      fa, h)
              else
              (case boardRootOnly h m head (head = ''classes'') of
                 Some e \<Rightarrow> (Some e, fa, h)
               | None \<Rightarrow>
              (case boardRootOnly h m head (findBoardKeyword x [head] \<noteq> - 1) of
                 Some e \<Rightarrow> (Some e, fa, h)
               | None \<Rightarrow>
              (case lookup h m of
                 Some (MapNode p fs es) \<Rightarrow>
                   (case findField h fs head of
                      Inl e \<Rightarrow> (Some e, fa, h)
                    | Inr (Some f) \<Rightarrow>
                        (let h1 = addReference h f (kp ! i) kp refctx in
                         if Suc i = length kp then (None, fa @ [f], h1)
                         else if isArray h1 (Composite (h1 ! f))
                           then (Some (Err ''cannot index into array''), fa, h1)
                         else
                           (case ensureMap h1 f of
                              (Inl e, h2) \<Rightarrow> (Some e, fa, h2)
                            | (Inr fm, h2) \<Rightarrow> ensureField x (Suc i) kp refctx create fm fa h2))
                    | Inr None \<Rightarrow>
                        if \<not> create then (None, fa, h)
                        else
                          (case alloc h (FieldNode (Some m) head None None []) of
                             (f, h0) \<Rightarrow>
                               (let h1 = addReference h0 f (kp ! i) kp refctx;
                                    h2 = h1[m := MapNode p (fs @ [f]) es]
                                in
                                if Suc i = length kp then (None, fa @ [f], h2)
                                else
                                  (case newMap h2 f of
                                     (fm, h3) \<Rightarrow>
                                       ensureField x (Suc i) kp refctx create fm fa h3))))
               | _ \<Rightarrow> (Some Panic, fa, h)))))))"
| "ensureField_range x i kp refctx create pat [] fa h = (None, fa, h)"
| "ensureField_range x i kp refctx create pat (f # fs) fa h =
     (if length kp \<le> i then (Some Panic, fa, h)
      else
        (case lookup h f of
           Some (FieldNode p nm pr c rs) \<Rightarrow>
             if (case pat of None \<Rightarrow> True | Some pt \<Rightarrow> matchPattern x nm pt) then
               (if Suc i = length kp \<and> pat \<noteq> None
                  then ensureField_range x i kp refctx create pat fs (fa @ [f]) h
                else
                  (case ensureMap h f of
                     (Inl e, h1) \<Rightarrow> (Some e, fa, h1)
                   | (Inr fm, h1) \<Rightarrow>
                       (case ensureField x (Suc i) kp refctx create fm fa h1 of
                          (Some e, fa', h') \<Rightarrow> (Some e, fa', h')
                        | (None, fa', h') \<Rightarrow>
                            ensureField_range x i kp refctx create pat fs fa' h')))
             else ensureField_range x i kp refctx create pat fs fa h
         | _ \<Rightarrow> (Some Panic, fa, h)))"
  by pat_completeness auto
termination
  by (relation "measures
         [\<lambda>v. case v of
            Inl (x, i, kp, refctx, create, m, fa, h) \<Rightarrow> 2 * (Suc (length kp) - i) + 1
          | Inr (x, i, kp, refctx, create, pat, fs, fa, h) \<Rightarrow> 2 * (Suc (length kp) - i),
          \<lambda>v. case v of
            Inl (x, i, kp, refctx, create, m, fa, h) \<Rightarrow> 0
          | Inr (x, i, kp, refctx, create, pat, fs, fa, h) \<Rightarrow> length fs]")
     auto

declare ensureField.simps [simp del]

text \<open>
  The loop at the head of \<^verbatim>\<open>EnsureField\<close>,
  \<^verbatim>\<open>for kp.Path[i].Unbox().ScalarString() == "_"\<close>: each leading \<^verbatim>\<open>_\<close> moves to the
  parent Map.  It answers the index of the first other segment and the Map
  reached.
\<close>

function EnsureField_underscores :: "heap \<Rightarrow> KeyPath \<Rightarrow> nat \<Rightarrow> addr \<Rightarrow> error + nat \<times> addr" where
  "EnsureField_underscores h kp i m =
     (if length kp \<le> i then Inl Panic
      else if ScalarString (kp ! i) = ''_'' then
        (case ParentMap h m of
           Inl e \<Rightarrow> Inl e
         | Inr None \<Rightarrow> Inl (Err ''invalid underscore: no parent'')
         | Inr (Some m') \<Rightarrow>
             if Suc i = length kp then Inl (Err ''field key must contain more than underscores'')
             else EnsureField_underscores h kp (Suc i) m')
      else Inr (i, m))"
  by pat_completeness auto
termination
  by (relation "measure (\<lambda>(h, kp, i, m). length kp - i)") auto

declare EnsureField_underscores.simps [simp del]

text \<open>
  \<^verbatim>\<open>func (m *Map) EnsureField(kp *d2ast.KeyPath, refctx *RefContext, create bool) ([]*Field, error)\<close>.
\<close>

definition EnsureField ::
  "ext \<Rightarrow> heap \<Rightarrow> addr \<Rightarrow> KeyPath \<Rightarrow> addr option \<Rightarrow> bool \<Rightarrow> error option \<times> addr list \<times> heap"
where
  "EnsureField x h m kp refctx create =
     (case EnsureField_underscores h kp 0 m of
        Inl e \<Rightarrow> (Some e, [], h)
      | Inr (i, m') \<Rightarrow> ensureField x i kp refctx create m' [] h)"



text \<open>
  An instance of the parameters, for the examples: a few reserved keywords, of
  which the board keywords, the keyword holder \<^verbatim>\<open>style\<close>, \<^verbatim>\<open>label\<close> and \<^verbatim>\<open>classes\<close>
  may hold composites; a pattern matcher that knows the pattern \<^verbatim>\<open>*\<close>, matching
  every name; no double globs; and a path has a glob when one of its segments
  has a pattern.
\<close>

definition ext0 :: ext where
  "ext0 =
     \<lparr>ReservedKeywords = [''label'', ''shape'', ''style'', ''classes'', ''layers'', ''scenarios'', ''steps''],
      CompositeReservedKeywords =
        [''label'', ''classes'', ''style'', ''layers'', ''scenarios'', ''steps''],
      BoardKeywords = [''layers'', ''scenarios'', ''steps''],
      SimpleReservedKeywords = [''label'', ''shape''],
      ReservedKeywordHolders = [''style''],
      matchPattern = (\<lambda>s pat. pat = [''*'']),
      doubleGlob = (\<lambda>h m pat. Inr ([], False)),
      HasGlob = (\<lambda>kp. \<exists>sb\<in>set kp. Pattern sb \<noteq> None),
      HasDoubleGlob = (\<lambda>kp. False),
      MakeKeyPath = map (\<lambda>s. \<lparr>ScalarString = s, Pattern = None\<rparr>)\<rparr>"

text \<open>A literal path segment, and the empty tree: the root Field (0), the root Map (1)
  and the context of the root (2).\<close>

definition lit :: "string \<Rightarrow> StringBox" where
  "lit s = \<lparr>ScalarString = s, Pattern = None\<rparr>"

definition tree_empty :: heap where
  "tree_empty = [rootField 2, MapNode (Some 0) [] [], rootContext]"

section \<open>Creating edges\<close>

text \<open>
  \<^verbatim>\<open>func RelIDA(p, n Node) (ida []string)\<close>: the names from \<open>n\<close> upwards, until the
  root, \<open>p\<close> itself or the owner of \<open>p\<close> is reached, then reversed.  Every round
  moves to a proper ancestor, so the loop gets \<open>Suc (length h)\<close> units of fuel.
\<close>

fun RelIDA_loop :: "nat \<Rightarrow> heap \<Rightarrow> addr \<Rightarrow> addr \<Rightarrow> string list \<Rightarrow> error + string list" where
  "RelIDA_loop 0 h p n ida = Inl Diverges"
| "RelIDA_loop (Suc k) h p n ida =
     (case lookup h n of
        None \<Rightarrow> Inl Panic
      | Some nd \<Rightarrow>
          (let ida' = (case nd of FieldNode fp nm pr c rs \<Rightarrow> ida @ [nm] | _ \<Rightarrow> ida);
               root = (case nd of FieldNode fp nm pr c rs \<Rightarrow> fp = None | _ \<Rightarrow> False)
           in
           if root then Inr (rev ida')
           else
             (case ParentField h n of
                Inl e \<Rightarrow> Inl e
              | Inr None \<Rightarrow> Inr (rev ida')
              | Inr (Some f) \<Rightarrow>
                  (case lookup h f of
                     Some (FieldNode fp nm pr c rs) \<Rightarrow>
                       if fp = None \<or> f = p \<or> c = Some p then Inr (rev ida')
                       else RelIDA_loop k h p f ida'
                   | _ \<Rightarrow> Inl Panic))))"

definition RelIDA :: "heap \<Rightarrow> addr \<Rightarrow> addr \<Rightarrow> error + string list" where
  "RelIDA h p n = RelIDA_loop (Suc (length h)) h p n []"

text \<open>
  \<^verbatim>\<open>func (m *Map) IsContainer() bool\<close>: false for nil, true when some field has a
  name outside \<^verbatim>\<open>d2graph.ReservedKeywords\<close>.
\<close>

fun IsContainer_range :: "ext \<Rightarrow> heap \<Rightarrow> addr list \<Rightarrow> error + bool" where
  "IsContainer_range x h [] = Inr False"
| "IsContainer_range x h (f # fs) =
     (case lookup h f of
        Some (FieldNode p nm pr c rs) \<Rightarrow>
          if nm \<notin> set (ReservedKeywords x) then Inr True else IsContainer_range x h fs
      | _ \<Rightarrow> Inl Panic)"

definition IsContainer :: "ext \<Rightarrow> heap \<Rightarrow> addr option \<Rightarrow> error + bool" where
  "IsContainer x h m =
     (case m of
        None \<Rightarrow> Inr False
      | Some a \<Rightarrow>
          (case lookup h a of
             Some (MapNode p fs es) \<Rightarrow> IsContainer_range x h fs
           | _ \<Rightarrow> Inl Panic))"

text \<open>
  The test made for an endpoint \<open>f\<close> whose path has a double glob (\<open>cond\<close>):
  \<^verbatim>\<open>if f.Map().IsContainer() { continue }; if ParentBoard(src) != ParentBoard(dst) { continue }\<close>.
  The answer \<open>True\<close> is \<^verbatim>\<open>continue\<close>.
\<close>

definition doubleGlobSkip :: "ext \<Rightarrow> heap \<Rightarrow> bool \<Rightarrow> addr \<Rightarrow> addr \<Rightarrow> addr \<Rightarrow> error + bool" where
  "doubleGlobSkip x h cond f src dst =
     (if \<not> cond then Inr False
      else
        bindE (Field_Map h f) (\<lambda>fm.
        bindE (IsContainer x h fm) (\<lambda>c.
          if c then Inr True
          else
            bindE (ParentBoard h src) (\<lambda>bs.
            bindE (ParentBoard h dst) (\<lambda>bd. Inr (bs \<noteq> bd))))))"

text \<open>
  The three tests at the head of the body of the pairing loop of \<^verbatim>\<open>createEdge\<close>;
  \<open>True\<close> means that the pair is passed over.
\<close>

definition skipPair :: "ext \<Rightarrow> heap \<Rightarrow> ast_Edge \<Rightarrow> addr \<Rightarrow> addr \<Rightarrow> error + bool" where
  "skipPair x h ed src dst =
     (if src = dst \<and> (HasGlob x (Src ed) \<or> HasGlob x (Dst ed)) then Inr True
      else
        bindE (doubleGlobSkip x h (HasDoubleGlob x (Src ed)) src src dst) (\<lambda>s.
          if s then Inr True
          else doubleGlobSkip x h (HasDoubleGlob x (Dst ed)) dst src dst))"

text \<open>
  The body of the pairing loop for one pair: the tests, then
  \<^verbatim>\<open>eid2 := eid.Copy(); eid2.SrcPath = RelIDA(m, src); eid2.DstPath = RelIDA(m, dst)\<close>,
  \<^verbatim>\<open>createEdge2\<close>, and \<^verbatim>\<open>*ea = append(*ea, e)\<close>.
\<close>

definition createEdge_pair ::
  "ext \<Rightarrow> addr \<Rightarrow> EdgeID \<Rightarrow> addr \<Rightarrow> ast_Edge \<Rightarrow> addr \<Rightarrow> addr \<Rightarrow> addr list \<Rightarrow> heap
    \<Rightarrow> error option \<times> addr list \<times> heap"
where
  "createEdge_pair x m eid refctx ed src dst ea h =
     (case skipPair x h ed src dst of
        Inl e \<Rightarrow> (Some e, ea, h)
      | Inr True \<Rightarrow> (None, ea, h)
      | Inr False \<Rightarrow>
          (case RelIDA h m src of
             Inl e \<Rightarrow> (Some e, ea, h)
           | Inr srcPath \<Rightarrow>
          (case RelIDA h m dst of
             Inl e \<Rightarrow> (Some e, ea, h)
           | Inr dstPath \<Rightarrow>
          (case createEdge2 h m (eid\<lparr>SrcPath := srcPath, DstPath := dstPath\<rparr>) refctx src dst of
             (Inl e, h') \<Rightarrow> (Some e, ea, h')
           | (Inr e, h') \<Rightarrow> (None, ea @ [e], h')))))"

text \<open>The loops \<^verbatim>\<open>for _, src := range srcFA { for _, dst := range dstFA { ... } }\<close>.\<close>

fun createEdge_dsts ::
  "ext \<Rightarrow> addr \<Rightarrow> EdgeID \<Rightarrow> addr \<Rightarrow> ast_Edge \<Rightarrow> addr \<Rightarrow> addr list \<Rightarrow> addr list \<Rightarrow> heap
    \<Rightarrow> error option \<times> addr list \<times> heap"
where
  "createEdge_dsts x m eid refctx ed src [] ea h = (None, ea, h)"
| "createEdge_dsts x m eid refctx ed src (dst # dstFA) ea h =
     (case createEdge_pair x m eid refctx ed src dst ea h of
        (Some e, ea', h') \<Rightarrow> (Some e, ea', h')
      | (None, ea', h') \<Rightarrow> createEdge_dsts x m eid refctx ed src dstFA ea' h')"

fun createEdge_srcs ::
  "ext \<Rightarrow> addr \<Rightarrow> EdgeID \<Rightarrow> addr \<Rightarrow> ast_Edge \<Rightarrow> addr list \<Rightarrow> addr list \<Rightarrow> addr list \<Rightarrow> heap
    \<Rightarrow> error option \<times> addr list \<times> heap"
where
  "createEdge_srcs x m eid refctx ed [] dstFA ea h = (None, ea, h)"
| "createEdge_srcs x m eid refctx ed (src # srcFA) dstFA ea h =
     (case createEdge_dsts x m eid refctx ed src dstFA ea h of
        (Some e, ea', h') \<Rightarrow> (Some e, ea', h')
      | (None, ea', h') \<Rightarrow> createEdge_srcs x m eid refctx ed srcFA dstFA ea' h')"

text \<open>
  Modelled from the spec: \<^verbatim>\<open>d2ast.MakeKeyPath\<close> is not at hand; it makes the key path
  whose segments are the given strings, none of them a pattern.
\<close>

definition MakeKeyPath :: "string list \<Rightarrow> KeyPath" where
  "MakeKeyPath ida = map (\<lambda>s. \<lparr>ScalarString = s, Pattern = None\<rparr>) ida"

text \<open>
  The loops that put the elements of \<^verbatim>\<open>refctx.Edge.Src.Path\<close> back into the common
  key path: for the element \<open>el\<close> at index \<open>i\<close>, \<open>j\<close> runs from \<^verbatim>\<open>lastMatch\<close> to the
  end of the source path, and each \<open>j\<close> with the same text stores that element at
  \<open>i\<close> and adds \<open>j + 1\<close> to \<^verbatim>\<open>lastMatch\<close>.
\<close>

definition commonKP_inner :: "KeyPath \<Rightarrow> StringBox \<Rightarrow> nat \<Rightarrow> StringBox \<times> nat" where
  "commonKP_inner sp el lastMatch =
     fold (\<lambda>j (cur, lm).
             if ScalarString el = ScalarString (sp ! j) then (sp ! j, lm + j + 1) else (cur, lm))
       [lastMatch..<length sp] (el, lastMatch)"

fun commonKP_real :: "KeyPath \<Rightarrow> KeyPath \<Rightarrow> nat \<Rightarrow> KeyPath" where
  "commonKP_real sp [] lastMatch = []"
| "commonKP_real sp (el # ckp) lastMatch =
     (case commonKP_inner sp el lastMatch of
        (cur, lastMatch') \<Rightarrow> cur # commonKP_real sp ckp lastMatch')"

text \<open>
  The guards on the endpoint paths.  The error is reported at
  \<^verbatim>\<open>refctx.Edge.Src.Path[ij]\<close> (or \<^verbatim>\<open>Dst\<close>), a read that panics when \<open>ij\<close> is out
  of range.
\<close>

definition errorAt :: "KeyPath \<Rightarrow> int \<Rightarrow> string \<Rightarrow> error" where
  "errorAt kp ij msg = (if 0 \<le> ij \<and> ij < int (length kp) then Err msg else Panic)"

definition edgeKeywordGuard :: "ext \<Rightarrow> string list \<Rightarrow> KeyPath \<Rightarrow> error option" where
  "edgeKeywordGuard x path kp =
     (let ij = findProhibitedEdgeKeyword x path in
      if ij \<noteq> - 1 then Some (errorAt kp ij ''reserved keywords are prohibited in edges'')
      else
        (let ij = findBoardKeyword x path in
         if ij = int (length path) - 1
           then Some (errorAt kp ij ''edge with board keyword alone doesn't make sense'')
         else None))"

text \<open>
  \<^verbatim>\<open>func (m *Map) createEdge(eid *EdgeID, refctx *RefContext, ea *[]*Edge) error\<close>.
  \<open>createEdge_common\<close> is the loop \<^verbatim>\<open>for _, f := range fa\<close> of the branch for a
  common prefix.  A context always carries its \<^verbatim>\<open>ScopeMap\<close>; the model answers
  \<open>Panic\<close> for one that does not.
\<close>

function createEdge ::
    "ext \<Rightarrow> addr \<Rightarrow> EdgeID \<Rightarrow> addr \<Rightarrow> addr list \<Rightarrow> heap \<Rightarrow> error option \<times> addr list \<times> heap"
  and createEdge_common ::
    "ext \<Rightarrow> EdgeID \<Rightarrow> addr \<Rightarrow> addr list \<Rightarrow> addr list \<Rightarrow> heap \<Rightarrow> error option \<times> addr list \<times> heap"
where
  "createEdge x m eid refctx ea h =
     (case ParentEdge h m of
        Inl e \<Rightarrow> (Some e, ea, h)
      | Inr (Some pe) \<Rightarrow> (Some (Errorf_edge h refctx ''cannot create edge inside edge''), ea, h)
      | Inr None \<Rightarrow>
     (case resolve h eid m of
        Inl (Err msg) \<Rightarrow> (Some (Errorf_edge h refctx msg), ea, h)
      | Inl e \<Rightarrow> (Some e, ea, h)
      | Inr (eid', m', common) \<Rightarrow>
     (case lookup h refctx of
        Some (ContextNode (Some ed) (Some scope)) \<Rightarrow>
          if length common > 0 then
            (case EnsureField x h m' (commonKP_real (Src ed) (MakeKeyPath common) 0) None True of
               (Some e, fa, h') \<Rightarrow> (Some e, ea, h')
             | (None, fa, h') \<Rightarrow> createEdge_common x eid' refctx fa ea h')
          else
            (case edgeKeywordGuard x (SrcPath eid') (Src ed) of
               Some e \<Rightarrow> (Some e, ea, h)
             | None \<Rightarrow>
            (case edgeKeywordGuard x (DstPath eid') (Dst ed) of
               Some e \<Rightarrow> (Some e, ea, h)
             | None \<Rightarrow>
            (case EnsureField x h scope (Src ed) (Some refctx) True of
               (Some e, srcFA, h1) \<Rightarrow> (Some e, ea, h1)
             | (None, srcFA, h1) \<Rightarrow>
            (case EnsureField x h1 scope (Dst ed) (Some refctx) True of
               (Some e, dstFA, h2) \<Rightarrow> (Some e, ea, h2)
             | (None, dstFA, h2) \<Rightarrow>
                 createEdge_srcs x m' eid' refctx ed srcFA dstFA ea h2))))
      | _ \<Rightarrow> (Some Panic, ea, h))))"
| "createEdge_common x eid refctx [] ea h = (None, ea, h)"
| "createEdge_common x eid refctx (f # fa) ea h =
     (case lookup h f of
        Some (FieldNode p nm pr c rs) \<Rightarrow>
          if isArray h c then (Some (Errorf_edge h refctx ''cannot index into array''), ea, h)
          else
            (case ensureMap h f of
               (Inl e, h1) \<Rightarrow> (Some e, ea, h1)
             | (Inr fm, h1) \<Rightarrow>
                 (case createEdge x fm eid refctx ea h1 of
                    (Some e, ea', h') \<Rightarrow> (Some e, ea', h')
                  | (None, ea', h') \<Rightarrow> createEdge_common x eid refctx fa ea' h'))
      | _ \<Rightarrow> (Some Panic, ea, h))"
  by pat_completeness auto
termination
proof (relation "measures
         [\<lambda>v. case v of
            Inl (x, m, eid, refctx, ea, h) \<Rightarrow> 2 * (length (SrcPath eid) + length (DstPath eid))
          | Inr (x, eid, refctx, fa, ea, h) \<Rightarrow> 2 * (length (SrcPath eid) + length (DstPath eid)) + 1,
          \<lambda>v. case v of
            Inl (x, m, eid, refctx, ea, h) \<Rightarrow> 0
          | Inr (x, eid, refctx, fa, ea, h) \<Rightarrow> length fa]", goal_cases)
  case 1
  show ?case by simp
next
  case (2 x m eid refctx ea h x2 x2a eid' y m' common)
  then have "resolve h eid m = Inr (eid', m', common)" by simp
  from resolve_length [OF this] \<open>0 < length common\<close>
  show ?case by (cases common) auto
next
  case 3
  then show ?case by simp
next
  case 4
  then show ?case by simp
qed

declare createEdge.simps [simp del]

text \<open>\<^verbatim>\<open>func (m *Map) CreateEdge(eid *EdgeID, refctx *RefContext) ([]*Edge, error)\<close>.\<close>

definition CreateEdge ::
  "ext \<Rightarrow> heap \<Rightarrow> addr \<Rightarrow> EdgeID \<Rightarrow> addr \<Rightarrow> error option \<times> addr list \<times> heap"
where
  "CreateEdge x h m eid refctx = createEdge x m eid refctx [] h"

section \<open>Example trees with edges\<close>

text \<open>
  A single-glob segment \<^verbatim>\<open>*\<close>, which \<open>matchPattern ext0\<close> lets match every name.
  The tree of \<^verbatim>\<open>x: { a; b }\<close> and \<^verbatim>\<open>y: { a; b }\<close>: root Field (0), root Map (1),
  \<^verbatim>\<open>x\<close> (2) with Map (3) holding \<^verbatim>\<open>a\<close> (4) and \<^verbatim>\<open>b\<close> (5), \<^verbatim>\<open>y\<close> (6) with Map (7)
  holding \<^verbatim>\<open>a\<close> (8) and \<^verbatim>\<open>b\<close> (9), and the contexts (10, 11) of two statements
  \<^verbatim>\<open>*.a -> *.b\<close> in the root scope.
\<close>

definition star :: StringBox where
  "star = \<lparr>ScalarString = ''*'', Pattern = Some [''*'']\<rparr>"

definition edge_star_ab :: ast_Edge where
  "edge_star_ab = \<lparr>Src = [star, lit ''a''], Dst = [star, lit ''b'']\<rparr>"

definition eid_star_ab :: EdgeID where
  "eid_star_ab =
     \<lparr>SrcPath = [''*'', ''a''], SrcArrow = False, DstPath = [''*'', ''b''], DstArrow = True,
      Index = None, Glob = False\<rparr>"

definition tree_xy :: heap where
  "tree_xy =
     [rootField 12,
      MapNode (Some 0) [2, 6] [],
      FieldNode (Some 1) ''x'' None (Some 3) [],
      MapNode (Some 2) [4, 5] [],
      FieldNode (Some 3) ''a'' None None [],
      FieldNode (Some 3) ''b'' None None [],
      FieldNode (Some 1) ''y'' None (Some 7) [],
      MapNode (Some 6) [8, 9] [],
      FieldNode (Some 7) ''a'' None None [],
      FieldNode (Some 7) ''b'' None None [],
      ContextNode (Some edge_star_ab) (Some 1),
      ContextNode (Some edge_star_ab) (Some 1),
      rootContext]"

text \<open>
  The tree of \<^verbatim>\<open>x\<close> with the contexts of the statements \<^verbatim>\<open>x -> x\<close> (3) and
  \<^verbatim>\<open>* -> *\<close> (4).
\<close>

definition edge_x_x :: ast_Edge where
  "edge_x_x = \<lparr>Src = [lit ''x''], Dst = [lit ''x'']\<rparr>"

definition edge_star_star :: ast_Edge where
  "edge_star_star = \<lparr>Src = [star], Dst = [star]\<rparr>"

definition eid_x_x :: EdgeID where
  "eid_x_x =
     \<lparr>SrcPath = [''x''], SrcArrow = False, DstPath = [''x''], DstArrow = True,
      Index = None, Glob = False\<rparr>"

definition tree_x :: heap where
  "tree_x =
     [rootField 5,
      MapNode (Some 0) [2] [],
      FieldNode (Some 1) ''x'' None None [],
      ContextNode (Some edge_x_x) (Some 1),
      ContextNode (Some edge_star_star) (Some 1),
      rootContext]"

text \<open>The tree \<open>tree_x\<close> after the edge \<^verbatim>\<open>x -> x\<close> has been created (6).\<close>

definition tree_x_self :: heap where
  "tree_x_self =
     [rootField 5,
      MapNode (Some 0) [2] [6],
      FieldNode (Some 1) ''x'' None None [],
      ContextNode (Some edge_x_x) (Some 1),
      ContextNode (Some edge_star_star) (Some 1),
      rootContext,
      EdgeNode (Some 1) (eid_x_x\<lparr>Index := Some 0\<rparr>) None None [Some 3]]"

text \<open>Parameters under which every path counts as having a double glob.\<close>

definition ext_dg :: ext where
  "ext_dg = ext0\<lparr>HasDoubleGlob := (\<lambda>kp. True)\<rparr>"

section \<open>Deep copies\<close>

text \<open>
  The dynamic type of a node.  A Go field of pointer or interface type admits
  only some of them: \<^verbatim>\<open>Primary_ *Scalar\<close>, \<^verbatim>\<open>Composite\<close> (an Array or a Map),
  \<^verbatim>\<open>Map_ *Map\<close>, \<^verbatim>\<open>Fields []*Field\<close>, \<^verbatim>\<open>Edges []*Edge\<close> and \<^verbatim>\<open>Values []Value\<close>
  (a Scalar, an Array or a Map).  A store that breaks this typing cannot be
  written in Go; the model answers \<open>Panic\<close> when it meets one.
\<close>

datatype kind = KScalar | KField | KEdge | KArray | KMap | KContext

fun kindOf :: "node \<Rightarrow> kind" where
  "kindOf (ScalarNode p v) = KScalar"
| "kindOf (FieldNode p nm pr c rs) = KField"
| "kindOf (EdgeNode p i pr m rs) = KEdge"
| "kindOf (ArrayNode p vs) = KArray"
| "kindOf (MapNode p fs es) = KMap"
| "kindOf (ContextNode e s) = KContext"

definition optList :: "'a option \<Rightarrow> 'a list" where
  "optList v = (case v of None \<Rightarrow> [] | Some a \<Rightarrow> [a])"

definition listOpt :: "'a list \<Rightarrow> 'a option" where
  "listOpt xs = (case xs of [] \<Rightarrow> None | a # rest \<Rightarrow> Some a)"

text \<open>
  \<^verbatim>\<open>func (m *Map) initRoot()\<close> for the Map at \<open>m\<close>: a fresh context with scope \<open>m\<close>
  and a fresh Field \<^verbatim>\<open>root\<close> that refers to it; the answer is the address of that
  Field, the new parent of \<open>m\<close>.
\<close>

definition initRoot :: "heap \<Rightarrow> addr \<Rightarrow> addr \<times> heap" where
  "initRoot h m =
     (case alloc h (ContextNode None (Some m)) of
        (c, h1) \<Rightarrow>
          alloc h1 (FieldNode None ''root'' None None
                      [\<lparr>fr_String = None, fr_KeyPath = None, fr_Context = Some c\<rparr>]))"

text \<open>
  The five methods \<^verbatim>\<open>Copy(newParent Node) Node\<close>, as one function that dispatches
  on the node at \<open>a\<close>, as the interface call does.  \<open>ks\<close> are the kinds the static
  type of the pointer admits.  Each method first copies the struct
  (\<^verbatim>\<open>tmp := *n; n = &tmp\<close>), which is the allocation, then copies the children with
  the new node as their parent, and stores them in the new node; the model
  writes the new node once, at the end.  \<open>Copy_each\<close> copies a slice of children
  in order; an optional child is a slice of at most one.  The recursion follows
  the pointers of the store, so it gets a bound \<open>k\<close> on its depth.
\<close>

fun Copy :: "nat \<Rightarrow> kind list \<Rightarrow> addr \<Rightarrow> addr option \<Rightarrow> heap \<Rightarrow> (error + addr) \<times> heap"
  and Copy_each ::
    "nat \<Rightarrow> kind list \<Rightarrow> addr list \<Rightarrow> addr option \<Rightarrow> heap \<Rightarrow> (error + addr list) \<times> heap"
where
  "Copy 0 ks a np h = (Inl OutOfFuel, h)"
| "Copy (Suc k) ks a np h =
     (case lookup h a of
        None \<Rightarrow> (Inl Panic, h)
      | Some nd \<Rightarrow>
          if kindOf nd \<notin> set ks then (Inl Panic, h)
          else
            (case nd of
               ScalarNode p v \<Rightarrow>
                 (case alloc h (ScalarNode np v) of (s, h1) \<Rightarrow> (Inr s, h1))
             | FieldNode p nm pr c rs \<Rightarrow>
                 (case alloc h (FieldNode np nm pr c rs) of
                    (f, h1) \<Rightarrow>
                      (case Copy_each k [KScalar] (optList pr) (Some f) h1 of
                         (Inl e, h2) \<Rightarrow> (Inl e, h2)
                       | (Inr pr', h2) \<Rightarrow>
                           (case Copy_each k [KArray, KMap] (optList c) (Some f) h2 of
                              (Inl e, h3) \<Rightarrow> (Inl e, h3)
                            | (Inr c', h3) \<Rightarrow>
                                (Inr f, h3[f := FieldNode np nm (listOpt pr') (listOpt c') rs]))))
             | EdgeNode p i pr mp rs \<Rightarrow>
                 (case alloc h (EdgeNode np i pr mp rs) of
                    (e', h1) \<Rightarrow>
                      (case Copy_each k [KScalar] (optList pr) (Some e') h1 of
                         (Inl e, h2) \<Rightarrow> (Inl e, h2)
                       | (Inr pr', h2) \<Rightarrow>
                           (case Copy_each k [KMap] (optList mp) (Some e') h2 of
                              (Inl e, h3) \<Rightarrow> (Inl e, h3)
                            | (Inr mp', h3) \<Rightarrow>
                                (Inr e', h3[e' := EdgeNode np i (listOpt pr') (listOpt mp') rs]))))
             | ArrayNode p vs \<Rightarrow>
                 (case alloc h (ArrayNode np vs) of
                    (a', h1) \<Rightarrow>
                      (case Copy_each k [KScalar, KArray, KMap] vs (Some a') h1 of
                         (Inl e, h2) \<Rightarrow> (Inl e, h2)
                       | (Inr vs', h2) \<Rightarrow> (Inr a', h2[a' := ArrayNode np vs'])))
             | MapNode p fs es \<Rightarrow>
                 (case alloc h (MapNode np fs es) of
                    (m', h1) \<Rightarrow>
                      (case Copy_each k [KField] fs (Some m') h1 of
                         (Inl e, h2) \<Rightarrow> (Inl e, h2)
                       | (Inr fs', h2) \<Rightarrow>
                           (case Copy_each k [KEdge] es (Some m') h2 of
                              (Inl e, h3) \<Rightarrow> (Inl e, h3)
                            | (Inr es', h3) \<Rightarrow>
                                (if np = None then
                                   (case initRoot h3 m' of
                                      (r, h4) \<Rightarrow> (Inr m', h4[m' := MapNode (Some r) fs' es']))
                                 else (Inr m', h3[m' := MapNode np fs' es'])))))
             | ContextNode e s \<Rightarrow> (Inl Panic, h)))"
| "Copy_each k ks [] np h = (Inr [], h)"
| "Copy_each k ks (a # as) np h =
     (case Copy k ks a np h of
        (Inl e, h1) \<Rightarrow> (Inl e, h1)
      | (Inr a', h1) \<Rightarrow>
          (case Copy_each k ks as np h1 of
             (Inl e, h2) \<Rightarrow> (Inl e, h2)
           | (Inr as', h2) \<Rightarrow> (Inr (a' # as'), h2)))"

text \<open>\<^verbatim>\<open>func (m *Map) Copy(newParent Node) Node\<close>.\<close>

definition Map_Copy :: "nat \<Rightarrow> heap \<Rightarrow> addr \<Rightarrow> addr option \<Rightarrow> (error + addr) \<times> heap" where
  "Map_Copy k h m newParent = Copy k [KMap] m newParent h"

section \<open>Structural equality\<close>

text \<open>
  \<^verbatim>\<open>func (s *Scalar) Equal(n2 Node) bool\<close> on the two values: two strings are
  compared by their text, anything else by type and text.
\<close>

definition Scalar_Equal :: "ast_Scalar \<Rightarrow> ast_Scalar \<Rightarrow> bool" where
  "Scalar_Equal v v2 =
     (if IsString v \<and> IsString v2 then ScalarStr v = ScalarStr v2
      else Type v = Type v2 \<and> ScalarStr v = ScalarStr v2)"

text \<open>
  The five methods \<^verbatim>\<open>Equal(n2 Node) bool\<close>, as one function that dispatches on the
  receiver.  None of them tests for nil: a nil receiver (\<open>None\<close>) is dereferenced,
  or is a nil interface whose method is called, and the type assertion on \<open>n2\<close>
  fails for a node of another type; all of that is \<open>Panic\<close>.  \<open>Equal_each\<close> is the
  loop \<^verbatim>\<open>for i := range xs { if !xs[i].Equal(ys[i]) { return false } }\<close>, entered
  after the lengths were found equal.
\<close>

fun Equal :: "nat \<Rightarrow> heap \<Rightarrow> addr option \<Rightarrow> addr option \<Rightarrow> error + bool"
  and Equal_each :: "nat \<Rightarrow> heap \<Rightarrow> addr list \<Rightarrow> addr list \<Rightarrow> error + bool"
where
  "Equal 0 h n n2 = Inl OutOfFuel"
| "Equal (Suc k) h None n2 = Inl Panic"
| "Equal (Suc k) h (Some a) n2 =
     (case lookup h a of
        Some (ScalarNode p v) \<Rightarrow>
          (case n2 of
             None \<Rightarrow> Inl Panic
           | Some b \<Rightarrow>
               (case lookup h b of
                  Some (ScalarNode p2 v2) \<Rightarrow> Inr (Scalar_Equal v v2)
                | _ \<Rightarrow> Inl Panic))
      | Some (FieldNode p nm pr c rs) \<Rightarrow>
          (case n2 of
             None \<Rightarrow> Inl Panic
           | Some b \<Rightarrow>
               (case lookup h b of
                  Some (FieldNode p2 nm2 pr2 c2 rs2) \<Rightarrow>
                    if nm \<noteq> nm2 then Inr False
                    else
                      bindE (Equal k h pr pr2) (\<lambda>eq.
                        if \<not> eq then Inr False
                        else bindE (Equal k h c c2) (\<lambda>eq. if \<not> eq then Inr False else Inr True))
                | _ \<Rightarrow> Inl Panic))
      | Some (EdgeNode p i pr mp rs) \<Rightarrow>
          (case n2 of
             None \<Rightarrow> Inl Panic
           | Some b \<Rightarrow>
               (case lookup h b of
                  Some (EdgeNode p2 i2 pr2 mp2 rs2) \<Rightarrow>
                    if \<not> Match i i2 then Inr False
                    else
                      bindE (Equal k h pr pr2) (\<lambda>eq.
                        if \<not> eq then Inr False
                        else bindE (Equal k h mp mp2) (\<lambda>eq. if \<not> eq then Inr False else Inr True))
                | _ \<Rightarrow> Inl Panic))
      | Some (ArrayNode p vs) \<Rightarrow>
          (case n2 of
             None \<Rightarrow> Inl Panic
           | Some b \<Rightarrow>
               (case lookup h b of
                  Some (ArrayNode p2 vs2) \<Rightarrow>
                    if length vs \<noteq> length vs2 then Inr False else Equal_each k h vs vs2
                | _ \<Rightarrow> Inl Panic))
      | Some (MapNode p fs es) \<Rightarrow>
          (case n2 of
             None \<Rightarrow> Inl Panic
           | Some b \<Rightarrow>
               (case lookup h b of
                  Some (MapNode p2 fs2 es2) \<Rightarrow>
                    if length fs \<noteq> length fs2 then Inr False
                    else if length es \<noteq> length es2 then Inr False
                    else
                      bindE (Equal_each k h fs fs2) (\<lambda>eq.
                        if \<not> eq then Inr False else Equal_each k h es es2)
                | _ \<Rightarrow> Inl Panic))
      | _ \<Rightarrow> Inl Panic)"
| "Equal_each k h [] ys = Inr True"
| "Equal_each k h (x # xs) [] = Inl Panic"
| "Equal_each k h (x # xs) (y # ys) =
     bindE (Equal k h (Some x) (Some y)) (\<lambda>eq.
       if \<not> eq then Inr False else Equal_each k h xs ys)"

text \<open>\<^verbatim>\<open>func (m *Map) Equal(n2 Node) bool\<close>.\<close>

definition Map_Equal :: "nat \<Rightarrow> heap \<Rightarrow> addr \<Rightarrow> addr \<Rightarrow> error + bool" where
  "Map_Equal k h m m2 = Equal k h (Some m) (Some m2)"

text \<open>
  The tree of the program \<^verbatim>\<open>a\<close>: a single Field \<^verbatim>\<open>a\<close> (3) without primary value
  and without composite, as \<^verbatim>\<open>EnsureField\<close> creates it.
\<close>

definition tree_field_a :: heap where
  "tree_field_a =
     [rootField 2,
      MapNode (Some 0) [3] [],
      rootContext,
      FieldNode (Some 1) ''a'' None None []]"

section \<open>Deleting edges and fields\<close>

text \<open>
  \<^verbatim>\<open>func (m *Map) DeleteEdge(eid *EdgeID) *Edge\<close> for a non-nil \<open>eid\<close>: the first edge
  of \<open>m\<close> whose identity matches is cut out of \<^verbatim>\<open>m.Edges\<close> and returned.
  \<open>firstMatch\<close> is the search, answering the index.
\<close>

fun firstMatch :: "heap \<Rightarrow> addr list \<Rightarrow> EdgeID \<Rightarrow> nat \<Rightarrow> error + nat option" where
  "firstMatch h [] eid i = Inr None"
| "firstMatch h (e # es) eid i =
     (case lookup h e of
        Some (EdgeNode p eid' pr mp rs) \<Rightarrow>
          if Match eid' eid then Inr (Some i) else firstMatch h es eid (Suc i)
      | _ \<Rightarrow> Inl Panic)"

definition DeleteEdge :: "heap \<Rightarrow> addr \<Rightarrow> EdgeID \<Rightarrow> (error + addr option) \<times> heap" where
  "DeleteEdge h m eid =
     (case lookup h m of
        Some (MapNode p fs es) \<Rightarrow>
          (case firstMatch h es eid 0 of
             Inl e \<Rightarrow> (Inl e, h)
           | Inr None \<Rightarrow> (Inr None, h)
           | Inr (Some i) \<Rightarrow>
               (Inr (Some (es ! i)), h[m := MapNode p fs (take i es @ drop (Suc i) es)]))
      | _ \<Rightarrow> (Inl Panic, h))"

text \<open>
  The loop \<^verbatim>\<open>for _, e := range m.Edges\<close> inside \<^verbatim>\<open>DeleteField\<close>, for one reference
  context \<open>ctx\<close> of the deleted field: an edge with a reference of the same
  context is deleted by \<^verbatim>\<open>m.DeleteEdge(e.ID)\<close>.  The loop ranges over the slice as
  it was when the loop began, while \<^verbatim>\<open>DeleteEdge\<close> shifts the elements of the same
  backing array in place.  \<open>arr\<close> is that backing array up to the length the loop
  began with: after a deletion it holds the shorter \<^verbatim>\<open>m.Edges\<close> followed by the
  stale elements behind it.  \<open>j\<close> is the loop index.
\<close>

function cascade_range ::
  "heap \<Rightarrow> addr \<Rightarrow> addr option \<Rightarrow> addr list \<Rightarrow> nat \<Rightarrow> nat \<Rightarrow> error option \<times> heap"
where
  "cascade_range h m ctx arr n j =
     (if n \<le> j then (None, h)
      else if length arr \<le> j then (Some Panic, h)
      else
        (case lookup h (arr ! j) of
           Some (EdgeNode p eid pr mp rs) \<Rightarrow>
             if ctx \<in> set rs then
               (case DeleteEdge h m eid of
                  (Inl e, h') \<Rightarrow> (Some e, h')
                | (Inr d, h') \<Rightarrow>
                    (case lookup h' m of
                       Some (MapNode mp' fs es) \<Rightarrow>
                         cascade_range h' m ctx (es @ drop (length es) arr) n (Suc j)
                     | _ \<Rightarrow> (Some Panic, h')))
             else cascade_range h m ctx arr n (Suc j)
         | _ \<Rightarrow> (Some Panic, h)))"
  by pat_completeness auto
termination
  by (relation "measure (\<lambda>(h, m, ctx, arr, n, j). n - j)") auto

declare cascade_range.simps [simp del]

text \<open>
  The loop \<^verbatim>\<open>for _, fr := range f.References\<close> around it, over the contexts of the
  references of the deleted field; every round ranges over \<^verbatim>\<open>m.Edges\<close> as it is
  then.
\<close>

fun cascade :: "heap \<Rightarrow> addr \<Rightarrow> addr option list \<Rightarrow> error option \<times> heap" where
  "cascade h m [] = (None, h)"
| "cascade h m (ctx # ctxs) =
     (case lookup h m of
        Some (MapNode p fs es) \<Rightarrow>
          (case cascade_range h m ctx es (length es) 0 of
             (Some e, h') \<Rightarrow> (Some e, h')
           | (None, h') \<Rightarrow> cascade h' m ctxs)
      | _ \<Rightarrow> (Some Panic, h))"

text \<open>
  The clean-up of an emptied keyword holder in \<^verbatim>\<open>DeleteField\<close>.  The Go loop runs
  over the keys of \<^verbatim>\<open>d2graph.ReservedKeywordHolders\<close> in an unspecified order, but
  its body only acts for the key that equals \<^verbatim>\<open>parent.Name\<close>, so the order does
  not matter: when the owner of the deleted field is named by a keyword holder
  and its Map has no fields left, the first field of that very name is cut out
  of the Map that holds the owner.
\<close>

fun firstNamed :: "heap \<Rightarrow> addr list \<Rightarrow> string \<Rightarrow> nat \<Rightarrow> error + nat option" where
  "firstNamed h [] nm i = Inr None"
| "firstNamed h (f # fs) nm i =
     (case lookup h f of
        Some (FieldNode p nm' pr c rs) \<Rightarrow>
          if nm' = nm then Inr (Some i) else firstNamed h fs nm (Suc i)
      | _ \<Rightarrow> Inl Panic)"

definition dropHolder :: "ext \<Rightarrow> heap \<Rightarrow> addr \<Rightarrow> error option \<times> heap" where
  "dropHolder x h f =
     (case ParentField h f of
        Inl e \<Rightarrow> (Some e, h)
      | Inr None \<Rightarrow> (None, h)
      | Inr (Some owner) \<Rightarrow>
          (case lookup h owner of
             Some (FieldNode pp pnm ppr pc prs) \<Rightarrow>
               if pnm \<notin> set (ReservedKeywordHolders x) then (None, h)
               else
                 (case Field_Map h owner of
                    Inl e \<Rightarrow> (Some e, h)
                  | Inr None \<Rightarrow> (Some Panic, h)
                  | Inr (Some pm) \<Rightarrow>
                      if Fields (h ! pm) \<noteq> [] then (None, h)
                      else
                        (case ParentMap h owner of
                           Inl e \<Rightarrow> (Some e, h)
                         | Inr None \<Rightarrow> (Some Panic, h)
                         | Inr (Some km) \<Rightarrow>
                             (case lookup h km of
                                Some (MapNode kp kfs kes) \<Rightarrow>
                                  (case firstNamed h kfs pnm 0 of
                                     Inl e \<Rightarrow> (Some e, h)
                                   | Inr None \<Rightarrow> (None, h)
                                   | Inr (Some i) \<Rightarrow>
                                       (None, h[km := MapNode kp (take i kfs @ drop (Suc i) kfs) kes]))
                              | _ \<Rightarrow> (Some Panic, h))))
           | _ \<Rightarrow> (Some Panic, h)))"

text \<open>
  \<^verbatim>\<open>func (m *Map) DeleteField(ida ...string) *Field\<close>.  \<open>DeleteField_range\<close> is its
  loop over \<^verbatim>\<open>m.Fields\<close>, with the index \<open>i\<close> of the field at hand.  For the last
  segment the first field of that name (up to case) is deleted: first the edges
  of \<open>m\<close> that share a reference context with it, then the field itself, then an
  emptied keyword holder.  For an earlier segment the search goes on in the Map
  of the first field of that name that has a Map.
\<close>

fun DeleteField :: "ext \<Rightarrow> heap \<Rightarrow> addr \<Rightarrow> string list \<Rightarrow> (error + addr option) \<times> heap"
  and DeleteField_range ::
    "ext \<Rightarrow> heap \<Rightarrow> addr \<Rightarrow> addr list \<Rightarrow> nat \<Rightarrow> string \<Rightarrow> string list \<Rightarrow> (error + addr option) \<times> heap"
where
  "DeleteField x h m [] = (Inr None, h)"
| "DeleteField x h m (s # rest) =
     (case lookup h m of
        Some (MapNode p fs es) \<Rightarrow> DeleteField_range x h m fs 0 s rest
      | _ \<Rightarrow> (Inl Panic, h))"
| "DeleteField_range x h m [] i s rest = (Inr None, h)"
| "DeleteField_range x h m (f # fs) i s rest =
     (case lookup h f of
        Some (FieldNode p nm pr c rs) \<Rightarrow>
          if \<not> EqualFold nm s then DeleteField_range x h m fs (Suc i) s rest
          else if rest = [] then
            (case cascade h m (map fr_Context rs) of
               (Some e, h1) \<Rightarrow> (Inl e, h1)
             | (None, h1) \<Rightarrow>
                 (case lookup h1 m of
                    Some (MapNode mp mfs mes) \<Rightarrow>
                      (case dropHolder x (h1[m := MapNode mp (take i mfs @ drop (Suc i) mfs) mes]) f of
                         (Some e, h2) \<Rightarrow> (Inl e, h2)
                       | (None, h2) \<Rightarrow> (Inr (Some f), h2))
                  | _ \<Rightarrow> (Inl Panic, h1)))
          else
            (case Field_Map h f of
               Inl e \<Rightarrow> (Inl e, h)
             | Inr None \<Rightarrow> DeleteField_range x h m fs (Suc i) s rest
             | Inr (Some fm) \<Rightarrow> DeleteField x h fm rest)
      | _ \<Rightarrow> (Inl Panic, h))"

text \<open>
  \<^verbatim>\<open>func (m *Map) CopyBase(newParent Node) *Map\<close> for a non-nil \<open>m\<close>:
  \<^verbatim>\<open>m.Fields = append(m.Fields, f)\<close> for each of the three fields that was found.
\<close>

definition appendField :: "heap \<Rightarrow> addr \<Rightarrow> addr option \<Rightarrow> heap" where
  "appendField h m f =
     (case f of
        None \<Rightarrow> h
      | Some a \<Rightarrow>
          (case lookup h m of
             Some (MapNode p fs es) \<Rightarrow> h[m := MapNode p (fs @ [a]) es]
           | _ \<Rightarrow> h))"

definition CopyBase :: "ext \<Rightarrow> nat \<Rightarrow> heap \<Rightarrow> addr \<Rightarrow> addr option \<Rightarrow> (error + addr) \<times> heap" where
  "CopyBase x k h m newParent =
     (case DeleteField x h m [''layers''] of
        (Inl e, h1) \<Rightarrow> (Inl e, h1)
      | (Inr layers, h1) \<Rightarrow>
     (case DeleteField x h1 m [''scenarios''] of
        (Inl e, h2) \<Rightarrow> (Inl e, h2)
      | (Inr scenarios, h2) \<Rightarrow>
     (case DeleteField x h2 m [''steps''] of
        (Inl e, h3) \<Rightarrow> (Inl e, h3)
      | (Inr steps, h3) \<Rightarrow>
     (case Map_Copy k h3 m newParent of
        (Inl e, h4) \<Rightarrow> (Inl e, h4)
      | (Inr m2, h4) \<Rightarrow>
          (Inr m2, appendField (appendField (appendField h4 m layers) m scenarios) m steps)))))"

text \<open>
  The tree of \<^verbatim>\<open>layers: { x }\<close> followed by \<^verbatim>\<open>a\<close>: the Field \<^verbatim>\<open>layers\<close> (3) with its
  Map (4) holding \<^verbatim>\<open>x\<close> (5), and the Field \<^verbatim>\<open>a\<close> (6).
\<close>

definition tree_layers_a :: heap where
  "tree_layers_a =
     [rootField 2,
      MapNode (Some 0) [3, 6] [],
      rootContext,
      FieldNode (Some 1) ''layers'' None (Some 4) [],
      MapNode (Some 3) [5] [],
      FieldNode (Some 4) ''x'' None None [],
      FieldNode (Some 1) ''a'' None None []]"

section \<open>Stores that differ by attached Maps and added references\<close>

text \<open>
  \<open>onlyMapsAttached h h'\<close> says how far a query may change the store \<open>h\<close>: every
  node of \<open>h\<close> is still there, a Map is exactly as it was (so no Map has gained or
  lost a Field or an Edge), a Field has kept its parent, name and primary value,
  its references have only been added to, and its composite is as it was or is
  a node that did not exist in \<open>h\<close>; every other node is as it was; and every node
  that did not exist in \<open>h\<close> is an empty Map owned by a Field.
\<close>

definition keepsNode :: "nat \<Rightarrow> node \<Rightarrow> node \<Rightarrow> bool" where
  "keepsNode n old new =
     (case old of
        FieldNode p nm pr c rs \<Rightarrow>
          (case new of
             FieldNode p' nm' pr' c' rs' \<Rightarrow>
               p' = p \<and> nm' = nm \<and> pr' = pr \<and> take (length rs) rs' = rs \<and>
               (c' = c \<or> (case c' of None \<Rightarrow> False | Some a \<Rightarrow> n \<le> a))
           | _ \<Rightarrow> False)
      | _ \<Rightarrow> new = old)"

definition emptyMap :: "node \<Rightarrow> bool" where
  "emptyMap nd = (case nd of MapNode (Some f) [] [] \<Rightarrow> True | _ \<Rightarrow> False)"

definition onlyMapsAttached :: "heap \<Rightarrow> heap \<Rightarrow> bool" where
  "onlyMapsAttached h h' =
     (length h \<le> length h' \<and>
      list_all2 (keepsNode (length h)) h (take (length h) h') \<and>
      list_all emptyMap (drop (length h) h'))"

text \<open>The tree \<open>tree_field_a\<close> after a Map (4) has been attached to \<^verbatim>\<open>a\<close>.\<close>

definition tree_field_a_map :: heap where
  "tree_field_a_map =
     [rootField 2,
      MapNode (Some 0) [3] [],
      rootContext,
      FieldNode (Some 1) ''a'' None (Some 4) [],
      MapNode (Some 3) [] []]"

chapter \<open>Properties\<close>

section \<open>Matching edge identities\<close>

lemma rangeEqualFold_list_all2:
  "length p = length q \<Longrightarrow> rangeEqualFold p q = list_all2 EqualFold p q"
  by (induction p q rule: rangeEqualFold.induct) auto

text \<open>
  Claim C8.  For all edge identities \<open>a\<close> and \<open>b\<close>, \<open>Match a b\<close> holds exactly when
  the source paths and the destination paths have equal lengths and pairwise
  case-insensitively equal segments (\<open>list_all2 EqualFold\<close>), the two arrow flags
  are equal, and one of the indices is null or both indices are equal.
\<close>

theorem Match_iff:
  "Match a b \<longleftrightarrow>
     list_all2 EqualFold (SrcPath a) (SrcPath b) \<and>
     list_all2 EqualFold (DstPath a) (DstPath b) \<and>
     SrcArrow a = SrcArrow b \<and> DstArrow a = DstArrow b \<and>
     (Index a = None \<or> Index b = None \<or> Index a = Index b)"
proof (cases "length (SrcPath a) = length (SrcPath b) \<and> length (DstPath a) = length (DstPath b)")
  case True
  then show ?thesis
    by (cases "Index a"; cases "Index b") (auto simp: Match_def rangeEqualFold_list_all2)
next
  case False
  then show ?thesis
    by (auto simp: Match_def dest: list_all2_lengthD)
qed

section \<open>The underscore walk of \<open>resolve\<close>\<close>

lemma countUnderscores_from_leading:
  "hasName p \<Longrightarrow> countUnderscores_from i p = i + leadingUnderscores p"
  by (induction p arbitrary: i) (auto simp: hasName_def leadingUnderscores_def)

lemma countUnderscores_leading:
  "hasName p \<Longrightarrow> countUnderscores p = leadingUnderscores p"
  by (simp add: countUnderscores_def countUnderscores_from_leading)

lemma resolve_side_promote:
  "hasName p \<Longrightarrow> resolve_side h m p = promote_side h m p"
  by (cases p)
     (auto simp: hasName_def resolve_side_def promote_side_def ownerName_def bindE_def
           split: sum.splits option.splits node.splits)

lemma promote_side_hasName:
  "hasName p \<Longrightarrow> promote_side h m p = Inr p' \<Longrightarrow> hasName p'"
  by (cases p) (auto simp: hasName_def promote_side_def bindE_eq_Inr split: if_splits)

lemma resolve_underscores_walk:
  "hasName src \<Longrightarrow> hasName dst \<Longrightarrow>
   resolve_underscores n h (src, dst, m) = underscore_walk n h (src, dst, m)"
proof (induction n arbitrary: src dst m)
  case 0
  show ?case by simp
next
  case (Suc n)
  show ?case
  proof (cases "promote_side h m src")
    case (Inl e)
    with Suc.prems show ?thesis by (simp add: resolve_side_promote)
  next
    case src': (Inr src')
    show ?thesis
    proof (cases "promote_side h m dst")
      case (Inl e)
      with Suc.prems src' show ?thesis by (simp add: resolve_side_promote)
    next
      case dst': (Inr dst')
      have "hasName src'" "hasName dst'"
        using Suc.prems src' dst' by (auto dest: promote_side_hasName)
      then show ?thesis
        using Suc.prems src' dst' Suc.IH [of src' dst']
        by (auto simp: resolve_side_promote intro!: bindE_cong split: option.splits)
    qed
  qed
qed

text \<open>
  Claim C3, amended: when \<^verbatim>\<open>SrcPath\<close> and \<^verbatim>\<open>DstPath\<close> each hold a segment other
  than \<^verbatim>\<open>_\<close>, \<open>resolve\<close> runs the walk for exactly \<open>n\<close> iterations, \<open>n\<close> the larger
  of the two leading-underscore runs: in each iteration a side whose head is
  \<^verbatim>\<open>_\<close> drops it, a side whose head is not \<^verbatim>\<open>_\<close> gets the name of the owning
  Field of \<open>m\<close> prepended, \<open>m\<close> moves to its parent Map, and a nil parent Map
  gives the error \<^verbatim>\<open>invalid underscore\<close>.  The common prefix is trimmed from the
  outcome of the walk.
\<close>

theorem resolve_underscore_walk:
  assumes "\<exists>s\<in>set (SrcPath eid). s \<noteq> ''_''" and "\<exists>s\<in>set (DstPath eid). s \<noteq> ''_''"
  shows "resolve h eid m =
           bindE (underscore_walk
                    (max (leadingUnderscores (SrcPath eid)) (leadingUnderscores (DstPath eid)))
                    h (SrcPath eid, DstPath eid, m))
             (\<lambda>(src, dst, m').
                case resolve_common src dst [] of
                  (src', dst', common) \<Rightarrow>
                    Inr (eid\<lparr>SrcPath := src', DstPath := dst'\<rparr>, m', common))"
proof -
  have "hasName (SrcPath eid)" "hasName (DstPath eid)"
    using assms by (simp_all add: hasName_def)
  then show ?thesis
    by (simp add: resolve_def countUnderscores_leading resolve_underscores_walk)
qed

lemmas walk_defs = ParentField_def ParentMap_def ParentEdge_def Parent_def lookup_def
  rootField_def rootContext_def

lemmas resolve_defs = walk_defs ownerName_def promote_side_def leadingUnderscores_def
  countUnderscores_def resolve_side_def

theorem resolve_underscore_walk_witness:
  "(\<exists>s\<in>set [''_'', ''x'']. s \<noteq> ''_'') \<and> (\<exists>s\<in>set [''y'']. s \<noteq> ''_'') \<and>
   resolve tree_a \<lparr>SrcPath = [''_'', ''x''], SrcArrow = False, DstPath = [''y''],
      DstArrow = True, Index = None, Glob = False\<rparr> 3 =
   Inr (\<lparr>SrcPath = [''x''], SrcArrow = False, DstPath = [''a'', ''y''],
      DstArrow = True, Index = None, Glob = False\<rparr>, 1, [])"
  using resolve_underscore_walk [of "\<lparr>SrcPath = [''_'', ''x''], SrcArrow = False, DstPath = [''y''],
      DstArrow = True, Index = None, Glob = False\<rparr>" tree_a 3]
  by (simp add: tree_a_def resolve_defs)

text \<open>
  The claim as worded fails for a path made of underscores only: the run of
  \<^verbatim>\<open>_\<close> has length 1, yet \<^verbatim>\<open>countUnderscores\<close> answers 0 and \<open>resolve\<close> does
  not iterate.  Inside the Map of \<^verbatim>\<open>a\<close>, the edge \<^verbatim>\<open>_ -> y\<close> is left as it is.
\<close>

theorem resolve_all_underscores_counterexample:
  "resolve tree_a \<lparr>SrcPath = [''_''], SrcArrow = False, DstPath = [''y''],
      DstArrow = True, Index = None, Glob = False\<rparr> 3 \<noteq>
   bindE (underscore_walk (max (leadingUnderscores [''_'']) (leadingUnderscores [''y'']))
            tree_a ([''_''], [''y''], 3))
     (\<lambda>(src, dst, m').
        case resolve_common src dst [] of
          (src', dst', common) \<Rightarrow>
            Inr (\<lparr>SrcPath = src', SrcArrow = False, DstPath = dst',
      DstArrow = True, Index = None, Glob = False\<rparr>, m', common))"
  by (simp add: resolve_def tree_a_def resolve_defs)

section \<open>Board classification\<close>

lemma climb_Some_stop:
  "climb k h stop n = Inr (Some p) \<Longrightarrow> stop p = Inr True"
  by (induction k arbitrary: n) (auto split: sum.splits option.splits bool.splits)

lemma ParentField_is_Field:
  "ParentField h n = Inr (Some f) \<Longrightarrow> \<exists>p nm pr c rs. lookup h f = Some (FieldNode p nm pr c rs)"
  unfolding ParentField_def
  by (drule climb_Some_stop) (auto elim: is_Field.elims)

lemma ParentField_root:
  "lookup h f = Some (FieldNode None nm pr c rs) \<Longrightarrow> ParentField h f = Inr None"
  by (simp add: ParentField_def Parent_def)

lemma BoardKind_distinct:
  "BoardLayer \<noteq> BoardScenario" "BoardLayer \<noteq> BoardStep" "BoardScenario \<noteq> BoardStep"
  "BoardLayer \<noteq> []" "BoardScenario \<noteq> []" "BoardStep \<noteq> []"
  by (simp_all add: BoardLayer_def BoardScenario_def BoardStep_def)

lemma kindOfName_cases:
  assumes "c = None \<or> (\<exists>p nm pr co rs. lookup h (the c) = Some (FieldNode p nm pr co rs))"
  shows "\<exists>k. kindOfName h c = Inr k \<and>
          (k = BoardLayer \<longleftrightarrow> (\<exists>a p pr co rs. c = Some a \<and> lookup h a = Some (FieldNode p ''layers'' pr co rs))) \<and>
          (k = BoardScenario \<longleftrightarrow> (\<exists>a p pr co rs. c = Some a \<and> lookup h a = Some (FieldNode p ''scenarios'' pr co rs))) \<and>
          (k = BoardStep \<longleftrightarrow> (\<exists>a p pr co rs. c = Some a \<and> lookup h a = Some (FieldNode p ''steps'' pr co rs))) \<and>
          (k = BoardLayer \<or> k = BoardScenario \<or> k = BoardStep \<or> k = [])"
  using assms BoardKind_distinct
  by (cases c) (auto simp: kindOfName_def)

lemma directlyUnder_iff:
  "container h n = Inr c \<Longrightarrow>
   directlyUnder h nm n \<longleftrightarrow> (\<exists>a p pr co rs. c = Some a \<and> lookup h a = Some (FieldNode p nm pr co rs))"
  by (auto simp: directlyUnder_def split: option.splits node.splits)

text \<open>
  Claim C5, amended.  For a Field or Map \<open>n\<close> whose container is found,
  \<open>NodeBoardKind\<close> returns a kind \<open>k\<close>, computed from the parent links alone:
  \<open>k\<close> is \<^verbatim>\<open>layer\<close> exactly when \<open>n\<close> is the tree root or sits directly under a
  container named \<^verbatim>\<open>layers\<close> (wherever that container is), \<^verbatim>\<open>scenario\<close> or
  \<^verbatim>\<open>step\<close> exactly when it sits directly under a container named \<^verbatim>\<open>scenarios\<close>
  or \<^verbatim>\<open>steps\<close>, and empty otherwise.
\<close>

theorem NodeBoardKind_structural:
  assumes "is_Field (lookup h n) \<or> is_Map (lookup h n)"
    and "container h n = Inr c"
  shows "\<exists>k. NodeBoardKind h n = Inr k \<and>
           (k = BoardLayer \<longleftrightarrow> treeRoot h n \<or> directlyUnder h ''layers'' n) \<and>
           (k = BoardScenario \<longleftrightarrow> directlyUnder h ''scenarios'' n) \<and>
           (k = BoardStep \<longleftrightarrow> directlyUnder h ''steps'' n) \<and>
           (k = [] \<longleftrightarrow> \<not> treeRoot h n \<and> \<not> directlyUnder h ''layers'' n \<and>
              \<not> directlyUnder h ''scenarios'' n \<and> \<not> directlyUnder h ''steps'' n)"
proof -
  have kinds:
    "\<exists>k. kindOfName h c = Inr k \<and>
       (k = BoardLayer \<longleftrightarrow> directlyUnder h ''layers'' n) \<and>
       (k = BoardScenario \<longleftrightarrow> directlyUnder h ''scenarios'' n) \<and>
       (k = BoardStep \<longleftrightarrow> directlyUnder h ''steps'' n) \<and>
       (k = BoardLayer \<or> k = BoardScenario \<or> k = BoardStep \<or> k = [])"
    if "c = None \<or> (\<exists>p nm pr co rs. lookup h (the c) = Some (FieldNode p nm pr co rs))"
    using kindOfName_cases [OF that] assms(2) by (simp add: directlyUnder_iff)
  have none: "\<not> directlyUnder h nm n" if "c = None" for nm
    using that assms(2) by (simp add: directlyUnder_iff)
  from assms(1) show ?thesis
  proof
    assume "is_Field (lookup h n)"
    then obtain p nm pr co rs where n: "lookup h n = Some (FieldNode p nm pr co rs)"
      by (auto elim: is_Field.elims)
    with assms(2) have pf: "ParentField h n = Inr c"
      by (simp add: container_def)
    show ?thesis
    proof (cases p)
      case None
      with n pf have "c = None"
        by (simp add: ParentField_root)
      with n None show ?thesis
        using none BoardKind_distinct by (simp add: NodeBoardKind_def treeRoot_def)
    next
      case (Some a)
      have "c = None \<or> (\<exists>p nm pr co rs. lookup h (the c) = Some (FieldNode p nm pr co rs))"
        using pf ParentField_is_Field [of h n] by (cases c) auto
      from kinds [OF this] n Some pf show ?thesis
        using BoardKind_distinct by (auto simp: NodeBoardKind_def treeRoot_def)
    qed
  next
    assume "is_Map (lookup h n)"
    then obtain p fs es where n: "lookup h n = Some (MapNode p fs es)"
      by (auto elim: is_Map.elims)
    with assms(2) obtain f where f: "ParentField h n = Inr (Some f)" and pf: "ParentField h f = Inr c"
      by (auto simp: container_def bindE_eq_Inr split: option.splits)
    from ParentField_is_Field [OF f] obtain fp fnm fpr fco frs
      where fn: "lookup h f = Some (FieldNode fp fnm fpr fco frs)" by blast
    show ?thesis
    proof (cases fp)
      case None
      with fn pf have "c = None"
        by (simp add: ParentField_root)
      with n f fn None show ?thesis
        using none BoardKind_distinct
        by (simp add: NodeBoardKind_def treeRoot_def Field_Root_def)
    next
      case (Some a)
      have "c = None \<or> (\<exists>p nm pr co rs. lookup h (the c) = Some (FieldNode p nm pr co rs))"
        using pf ParentField_is_Field [of h f] by (cases c) auto
      from kinds [OF this] n f fn Some pf show ?thesis
        using BoardKind_distinct by (auto simp: NodeBoardKind_def treeRoot_def Field_Root_def)
    qed
  qed
qed

lemmas board_defs = NodeBoardKind_def Field_Root_def kindOfName_def treeRoot_def container_def
  directlyUnder_def containerAtRoot_def BoardLayer_def BoardScenario_def BoardStep_def

theorem NodeBoardKind_structural_witness:
  "(is_Field (lookup tree_nested_layers 4) \<or> is_Map (lookup tree_nested_layers 4)) \<and>
   container tree_nested_layers 4 = Inr (Some 2) \<and>
   NodeBoardKind tree_nested_layers 4 = Inr BoardLayer \<and>
   directlyUnder tree_nested_layers ''layers'' 4"
  using NodeBoardKind_structural [of tree_nested_layers 4 "Some 2"]
  by (simp add: tree_nested_layers_def walk_defs board_defs)

text \<open>
  The claim as worded fails where boards nest.  In
  \<^verbatim>\<open>layers: { x: { layers: { y } } }\<close> the Field \<^verbatim>\<open>y\<close> is classified as a layer.  It
  is not the tree root, and the \<^verbatim>\<open>layers\<close> container above it is held by the Map
  of \<^verbatim>\<open>x\<close>, not by the root Map.
\<close>

theorem NodeBoardKind_nested_layers_counterexample:
  "NodeBoardKind tree_nested_layers 8 = Inr BoardLayer \<and>
   \<not> (treeRoot tree_nested_layers 8 \<or>
       (directlyUnder tree_nested_layers ''layers'' 8 \<and> containerAtRoot tree_nested_layers 8))"
  by (simp add: tree_nested_layers_def walk_defs board_defs)

section \<open>Edges and board boundaries\<close>

text \<open>
  Claim C6.  Let the context hold an edge, let the classification of both
  endpoints return (kinds \<open>ks\<close> and \<open>kd\<close>) and, when both kinds are empty, let
  the search for their parent boards return (\<open>bs\<close> and \<open>bd\<close>).  If an endpoint is
  a board root or the parent boards differ, \<open>createEdge2\<close> returns the error
  \<^verbatim>\<open>cannot create edges between boards\<close> and leaves the store as it was, so no
  edge is appended; and whenever \<open>createEdge2\<close> does create an edge, neither
  endpoint is a board root and both have the same parent board.
\<close>

theorem createEdge2_between_boards:
  assumes "lookup h refctx = Some (ContextNode (Some ed) sm)"
    and "NodeBoardKind h src = Inr ks"
    and "NodeBoardKind h dst = Inr kd"
    and "ks = [] \<and> kd = [] \<longrightarrow> ParentBoard h src = Inr bs \<and> ParentBoard h dst = Inr bd"
  shows "(ks \<noteq> [] \<or> kd \<noteq> [] \<or> bs \<noteq> bd \<longrightarrow>
            createEdge2 h m eid refctx src dst =
              (Inl (Err ''cannot create edges between boards''), h)) \<and>
         (\<forall>e h'. createEdge2 h m eid refctx src dst = (Inr e, h') \<longrightarrow>
            ks = [] \<and> kd = [] \<and> bs = bd)"
  using assms
  by (auto simp: createEdge2_def Errorf_edge_def Let_def
           split: sum.splits prod.splits option.splits node.splits if_splits)

theorem createEdge2_between_boards_witness:
  "lookup tree_boards 7 = Some (ContextNode (Some edge_y_b) (Some 1)) \<and>
   NodeBoardKind tree_boards 6 = Inr [] \<and>
   NodeBoardKind tree_boards 8 = Inr [] \<and>
   ParentBoard tree_boards 6 = Inr (Some 5) \<and>
   ParentBoard tree_boards 8 = Inr (Some 1) \<and>
   createEdge2 tree_boards 1
     \<lparr>SrcPath = [''layers'', ''x'', ''y''], SrcArrow = False, DstPath = [''b''],
        DstArrow = True, Index = None, Glob = False\<rparr> 7 6 8 =
     (Inl (Err ''cannot create edges between boards''), tree_boards)"
proof -
  have ctx: "lookup tree_boards 7 = Some (ContextNode (Some edge_y_b) (Some 1))"
    by (simp add: tree_boards_def lookup_def)
  have ks: "NodeBoardKind tree_boards 6 = Inr []"
    by (simp add: tree_boards_def walk_defs board_defs)
  have kd: "NodeBoardKind tree_boards 8 = Inr []"
    by (simp add: tree_boards_def walk_defs board_defs)
  have bs: "ParentBoard tree_boards 6 = Inr (Some 5)"
    by (simp add: tree_boards_def ParentBoard_def walk_defs board_defs)
  have bd: "ParentBoard tree_boards 8 = Inr (Some 1)"
    by (simp add: tree_boards_def ParentBoard_def walk_defs board_defs)
  from createEdge2_between_boards [OF ctx ks kd, of "Some 5" "Some 1"] ctx ks kd bs bd
  show ?thesis by simp
qed

section \<open>The pairing of endpoints\<close>

lemma IsContainer_range_True:
  "IsContainer_range x h fs = Inr True \<Longrightarrow>
   \<exists>f\<in>set fs. \<exists>p nm pr c rs. lookup h f = Some (FieldNode p nm pr c rs) \<and>
      nm \<notin> set (ReservedKeywords x)"
  by (induction fs) (auto split: option.splits node.splits if_splits)

lemma IsContainer_True:
  "IsContainer x h fm = Inr True \<Longrightarrow>
   \<exists>a mp fs es f p nm pr c rs. fm = Some a \<and> lookup h a = Some (MapNode mp fs es) \<and>
      f \<in> set fs \<and> lookup h f = Some (FieldNode p nm pr c rs) \<and>
      nm \<notin> set (ReservedKeywords x)"
  by (auto simp: IsContainer_def split: option.splits node.splits dest!: IsContainer_range_True)

text \<open>
  Claim C7.  In the body that \<^verbatim>\<open>createEdge\<close> runs for each pair of a resolved
  source and destination field: (1) a pair of one and the same field is passed
  over, with no edge and no error, when either endpoint path has a glob; (2) for
  endpoint paths without glob nothing is passed over, also not a pair of one and
  the same field, which goes on to \<open>createEdge2\<close>; (3, 4) when the source path
  has a double glob, the pair is passed over if the source field is a container
  or if the parent boards of the two fields differ; (5, 6) the same for the
  destination path and field, once the test for the source has returned; (7) a
  container is a field whose Map holds a field with a name that is not reserved.
\<close>

theorem createEdge_pair_skips:
  "(HasGlob x (Src ed) \<or> HasGlob x (Dst ed) \<longrightarrow>
      createEdge_pair x m eid refctx ed src src ea h = (None, ea, h)) \<and>
   (\<not> HasGlob x (Src ed) \<and> \<not> HasGlob x (Dst ed) \<and>
    \<not> HasDoubleGlob x (Src ed) \<and> \<not> HasDoubleGlob x (Dst ed) \<longrightarrow>
      skipPair x h ed src dst = Inr False \<and>
      createEdge_pair x m eid refctx ed src src ea h =
        (case RelIDA h m src of
           Inl e \<Rightarrow> (Some e, ea, h)
         | Inr p \<Rightarrow>
             (case createEdge2 h m (eid\<lparr>SrcPath := p, DstPath := p\<rparr>) refctx src src of
                (Inl e, h') \<Rightarrow> (Some e, ea, h')
              | (Inr e, h') \<Rightarrow> (None, ea @ [e], h')))) \<and>
   (HasDoubleGlob x (Src ed) \<and> Field_Map h src = Inr fm \<and> IsContainer x h fm = Inr True \<longrightarrow>
      createEdge_pair x m eid refctx ed src dst ea h = (None, ea, h)) \<and>
   (HasDoubleGlob x (Src ed) \<and> Field_Map h src = Inr fm \<and> IsContainer x h fm = Inr c \<and>
    ParentBoard h src = Inr bs \<and> ParentBoard h dst = Inr bd \<and> bs \<noteq> bd \<longrightarrow>
      createEdge_pair x m eid refctx ed src dst ea h = (None, ea, h)) \<and>
   (HasDoubleGlob x (Dst ed) \<and> Field_Map h dst = Inr fm \<and> IsContainer x h fm = Inr True \<and>
    doubleGlobSkip x h (HasDoubleGlob x (Src ed)) src src dst = Inr s \<longrightarrow>
      createEdge_pair x m eid refctx ed src dst ea h = (None, ea, h)) \<and>
   (HasDoubleGlob x (Dst ed) \<and> Field_Map h dst = Inr fm \<and> IsContainer x h fm = Inr c \<and>
    ParentBoard h src = Inr bs \<and> ParentBoard h dst = Inr bd \<and> bs \<noteq> bd \<and>
    doubleGlobSkip x h (HasDoubleGlob x (Src ed)) src src dst = Inr s \<longrightarrow>
      createEdge_pair x m eid refctx ed src dst ea h = (None, ea, h)) \<and>
   (IsContainer x h fm = Inr True \<longrightarrow>
      (\<exists>a mp fs es f p nm pr co rs. fm = Some a \<and> lookup h a = Some (MapNode mp fs es) \<and>
         f \<in> set fs \<and> lookup h f = Some (FieldNode p nm pr co rs) \<and>
         nm \<notin> set (ReservedKeywords x)))"
proof (intro conjI impI)
  assume "HasGlob x (Src ed) \<or> HasGlob x (Dst ed)"
  then show "createEdge_pair x m eid refctx ed src src ea h = (None, ea, h)"
    by (simp add: createEdge_pair_def skipPair_def)
next
  assume a: "\<not> HasGlob x (Src ed) \<and> \<not> HasGlob x (Dst ed) \<and>
    \<not> HasDoubleGlob x (Src ed) \<and> \<not> HasDoubleGlob x (Dst ed)"
  then show "skipPair x h ed src dst = Inr False"
    by (simp add: skipPair_def doubleGlobSkip_def)
  from a show "createEdge_pair x m eid refctx ed src src ea h =
        (case RelIDA h m src of
           Inl e \<Rightarrow> (Some e, ea, h)
         | Inr p \<Rightarrow>
             (case createEdge2 h m (eid\<lparr>SrcPath := p, DstPath := p\<rparr>) refctx src src of
                (Inl e, h') \<Rightarrow> (Some e, ea, h')
              | (Inr e, h') \<Rightarrow> (None, ea @ [e], h')))"
    by (simp add: createEdge_pair_def skipPair_def doubleGlobSkip_def split: sum.splits)
next
  assume "HasDoubleGlob x (Src ed) \<and> Field_Map h src = Inr fm \<and> IsContainer x h fm = Inr True"
  then show "createEdge_pair x m eid refctx ed src dst ea h = (None, ea, h)"
    by (simp add: createEdge_pair_def skipPair_def doubleGlobSkip_def)
next
  assume "HasDoubleGlob x (Src ed) \<and> Field_Map h src = Inr fm \<and> IsContainer x h fm = Inr c \<and>
    ParentBoard h src = Inr bs \<and> ParentBoard h dst = Inr bd \<and> bs \<noteq> bd"
  then show "createEdge_pair x m eid refctx ed src dst ea h = (None, ea, h)"
    by (simp add: createEdge_pair_def skipPair_def doubleGlobSkip_def)
next
  assume "HasDoubleGlob x (Dst ed) \<and> Field_Map h dst = Inr fm \<and> IsContainer x h fm = Inr True \<and>
    doubleGlobSkip x h (HasDoubleGlob x (Src ed)) src src dst = Inr s"
  then show "createEdge_pair x m eid refctx ed src dst ea h = (None, ea, h)"
    by (simp add: createEdge_pair_def skipPair_def doubleGlobSkip_def [of x h _ dst])
next
  assume "HasDoubleGlob x (Dst ed) \<and> Field_Map h dst = Inr fm \<and> IsContainer x h fm = Inr c \<and>
    ParentBoard h src = Inr bs \<and> ParentBoard h dst = Inr bd \<and> bs \<noteq> bd \<and>
    doubleGlobSkip x h (HasDoubleGlob x (Src ed)) src src dst = Inr s"
  then show "createEdge_pair x m eid refctx ed src dst ea h = (None, ea, h)"
    by (simp add: createEdge_pair_def skipPair_def doubleGlobSkip_def [of x h _ dst])
next
  assume "IsContainer x h fm = Inr True"
  then show "\<exists>a mp fs es f p nm pr co rs. fm = Some a \<and> lookup h a = Some (MapNode mp fs es) \<and>
         f \<in> set fs \<and> lookup h f = Some (FieldNode p nm pr co rs) \<and>
         nm \<notin> set (ReservedKeywords x)"
    by (rule IsContainer_True)
qed
theorem createEdge_pair_skips_witness:
  "HasGlob ext0 (Src edge_star_star) \<and>
   createEdge_pair ext0 1 eid_x_x 4 edge_star_star 2 2 [] tree_x = (None, [], tree_x) \<and>
   \<not> HasGlob ext0 (Src edge_x_x) \<and> \<not> HasGlob ext0 (Dst edge_x_x) \<and>
   \<not> HasDoubleGlob ext0 (Src edge_x_x) \<and> \<not> HasDoubleGlob ext0 (Dst edge_x_x) \<and>
   createEdge_pair ext0 1 eid_x_x 3 edge_x_x 2 2 [] tree_x = (None, [6], tree_x_self) \<and>
   HasDoubleGlob ext_dg (Src edge_star_ab) \<and> Field_Map tree_xy 2 = Inr (Some 3) \<and>
   IsContainer ext_dg tree_xy (Some 3) = Inr True \<and>
   createEdge_pair ext_dg 1 eid_star_ab 10 edge_star_ab 2 9 [] tree_xy = (None, [], tree_xy) \<and>
   Field_Map tree_boards 6 = Inr None \<and> IsContainer ext_dg tree_boards None = Inr False \<and>
   ParentBoard tree_boards 6 = Inr (Some 5) \<and> ParentBoard tree_boards 8 = Inr (Some 1) \<and>
   createEdge_pair ext_dg 1 eid_x_x 7 edge_y_b 6 8 [] tree_boards = (None, [], tree_boards)"
proof -
  have g: "HasGlob ext0 (Src edge_star_star)"
    by (simp add: ext0_def edge_star_star_def star_def)
  have ng: "\<not> HasGlob ext0 (Src edge_x_x) \<and> \<not> HasGlob ext0 (Dst edge_x_x) \<and>
     \<not> HasDoubleGlob ext0 (Src edge_x_x) \<and> \<not> HasDoubleGlob ext0 (Dst edge_x_x)"
    by (simp add: ext0_def edge_x_x_def lit_def)
  have rel: "RelIDA tree_x 1 2 = Inr [''x'']"
    by code_simp
  have ce2: "createEdge2 tree_x 1 (eid_x_x\<lparr>SrcPath := [''x''], DstPath := [''x'']\<rparr>) 3 2 2
     = (Inr 6, tree_x_self)"
    by code_simp
  have dg: "HasDoubleGlob ext_dg (Src edge_star_ab)" "HasDoubleGlob ext_dg (Src edge_y_b)"
    by (simp_all add: ext_dg_def)
  have fm: "Field_Map tree_xy 2 = Inr (Some 3)"
    by code_simp
  have ic: "IsContainer ext_dg tree_xy (Some 3) = Inr True"
    by code_simp
  have fm': "Field_Map tree_boards 6 = Inr None"
    by code_simp
  have ic': "IsContainer ext_dg tree_boards None = Inr False"
    by (simp add: IsContainer_def)
  have bs: "ParentBoard tree_boards 6 = Inr (Some 5)"
    by code_simp
  have bd: "ParentBoard tree_boards 8 = Inr (Some 1)"
    by code_simp
  note t = createEdge_pair_skips
  have c1: "createEdge_pair ext0 1 eid_x_x 4 edge_star_star 2 2 [] tree_x = (None, [], tree_x)"
    using t [where x = ext0 and ed = edge_star_star] g by blast
  have c2: "createEdge_pair ext0 1 eid_x_x 3 edge_x_x 2 2 [] tree_x = (None, [6], tree_x_self)"
    using t [where x = ext0 and ed = edge_x_x and h = tree_x and m = 1 and eid = eid_x_x
        and refctx = 3 and src = 2 and ea = "[]"] ng rel ce2
    by simp
  have c3: "createEdge_pair ext_dg 1 eid_star_ab 10 edge_star_ab 2 9 [] tree_xy = (None, [], tree_xy)"
    using t [where x = ext_dg and ed = edge_star_ab and h = tree_xy and src = 2 and fm = "Some 3"]
      dg fm ic by blast
  have c4: "createEdge_pair ext_dg 1 eid_x_x 7 edge_y_b 6 8 [] tree_boards = (None, [], tree_boards)"
    using t [where x = ext_dg and ed = edge_y_b and h = tree_boards and src = 6 and dst = 8
        and fm = None and c = False and bs = "Some 5" and bd = "Some 1"]
      dg fm' ic' bs bd by simp
  from g ng c1 c2 dg fm ic c3 fm' ic' bs bd c4 show ?thesis
    by simp
qed

section \<open>Edge indices\<close>

text \<open>
  Claim C1 at a failing input.  The statement \<^verbatim>\<open>*.a -> *.b\<close> is resolved twice
  against the tree of \<^verbatim>\<open>x: { a; b }\<close> and \<^verbatim>\<open>y: { a; b }\<close>.  Neither call fails.
  Afterwards the Map of \<^verbatim>\<open>x\<close> (3) holds eight edges, and its fourth (16) and
  eighth (24) both have the identity \<^verbatim>\<open>(y.a -> y.b)[0]\<close>: the second was given
  index 0 although an edge with the same endpoints was already there.
\<close>

theorem CreateEdge_repeated_index:
  "(case CreateEdge ext0 tree_xy 1 eid_star_ab 10 of
      (e, ea, h) \<Rightarrow>
        (case CreateEdge ext0 h 1 eid_star_ab 11 of
           (e', ea', h') \<Rightarrow>
             e = None \<and> e' = None \<and>
             Edges (h' ! 3) = [13, 14, 15, 16, 21, 22, 23, 24] \<and>
             ID (h' ! 16) = ID (h' ! 24) \<and>
             ID (h' ! 24) =
               \<lparr>SrcPath = [''y'', ''a''], SrcArrow = False, DstPath = [''y'', ''b''],
                DstArrow = True, Index = Some 0, Glob = False\<rparr>))"
  by code_simp

section \<open>Copy and equality\<close>

text \<open>
  Claim C2 at a failing input.  The root Map of the program \<^verbatim>\<open>a\<close> is copied, with
  any bound of at least 2 on the depth; the copy is the Map at address 4.
  Comparing the copy with the original, with any bound of at least 3, does not
  return \<open>true\<close>: \<^verbatim>\<open>Field.Equal\<close> calls \<^verbatim>\<open>f.Primary_.Equal(f2.Primary_)\<close> on the nil
  \<^verbatim>\<open>Primary_\<close> of \<^verbatim>\<open>a\<close>, and \<^verbatim>\<open>Scalar.Equal\<close> dereferences its nil receiver.
\<close>

theorem Copy_Equal_panics:
  "(case Map_Copy (Suc (Suc k)) tree_field_a 1 (Some 0) of
      (c, h) \<Rightarrow> c = Inr 4 \<and> Map_Equal (Suc (Suc (Suc j))) h 4 1 = Inl Panic)"
  by (simp add: Map_Copy_def Map_Equal_def tree_field_a_def lookup_def alloc_def optList_def
        listOpt_def rootField_def rootContext_def)

section \<open>Copying the base of a board\<close>

text \<open>
  The claim C9 as worded fails on the order of the fields.  In the tree of
  \<^verbatim>\<open>layers: { x }\<close> followed by \<^verbatim>\<open>a\<close> the root Map holds \<^verbatim>\<open>layers\<close> and then \<^verbatim>\<open>a\<close>;
  after \<^verbatim>\<open>CopyBase\<close> it holds \<^verbatim>\<open>a\<close> and then \<^verbatim>\<open>layers\<close>, because the detached field
  is appended at the end.
\<close>

theorem CopyBase_order_counterexample:
  "Fields (tree_layers_a ! 1) = [3, 6] \<and>
   (case CopyBase ext0 5 tree_layers_a 1 None of
      (r, h') \<Rightarrow> r = Inr 7 \<and> Fields (h' ! 1) = [6, 3] \<and>
        Fields (h' ! 1) \<noteq> Fields (tree_layers_a ! 1))"
  by code_simp

section \<open>What \<open>ensureField\<close> does to the store\<close>

text \<open>
  Whatever the path and the parameters, \<open>ensureField\<close> changes the store in three
  ways only: it appends a reference to a Field, it attaches a fresh empty Map to
  a Field that has no Map, and (when \<open>create\<close> is set) it appends a fresh Field
  to a Map that has no field of that name.  A property of stores kept by these
  three steps is kept by \<open>ensureField\<close>.
\<close>

lemma addReference_cases:
  "addReference h f sb kp refctx = h \<or>
   (\<exists>p nm pr c rs r. lookup h f = Some (FieldNode p nm pr c rs) \<and>
      addReference h f sb kp refctx = h[f := FieldNode p nm pr c (rs @ [r])])"
  by (auto simp: addReference_def split: option.splits node.splits)

lemma ensureMap_cases:
  "ensureMap h f = (r, h') \<Longrightarrow>
   h' = h \<or>
   (\<exists>p nm pr c rs. lookup h f = Some (FieldNode p nm pr c rs) \<and> Field_Map h f = Inr None \<and>
      r = Inr (length h) \<and>
      h' = (h @ [MapNode (Some f) [] []])[f := FieldNode p nm pr (Some (length h)) rs])"
  by (auto simp: ensureMap_def newMap_def alloc_def lookup_def Field_Map_def nth_append
           split: sum.splits option.splits node.splits if_splits)

lemma findField_Some:
  "findField h fs head = Inr (Some f) \<Longrightarrow>
   \<exists>p nm pr c rs. lookup h f = Some (FieldNode p nm pr c rs) \<and> EqualFold nm head \<and> f \<in> set fs"
  by (induction fs) (auto split: option.splits node.splits if_splits)

lemma newMap_Field:
  "lookup h f = Some (FieldNode p nm pr c rs) \<Longrightarrow>
   newMap h f = (length h, (h @ [MapNode (Some f) [] []])[f := FieldNode p nm pr (Some (length h)) rs])"
  by (auto simp: newMap_def alloc_def lookup_def nth_append split: if_splits)

lemma ensureField_ensureField_range_keeps:
  fixes Inv :: "addr list \<Rightarrow> heap \<Rightarrow> bool"
  assumes ref: "\<And>fa h f p nm pr c rs r. Inv fa h \<Longrightarrow> lookup h f = Some (FieldNode p nm pr c rs) \<Longrightarrow>
      Inv fa (h[f := FieldNode p nm pr c (rs @ [r])])"
    and att: "\<And>fa h f p nm pr c rs. Inv fa h \<Longrightarrow> lookup h f = Some (FieldNode p nm pr c rs) \<Longrightarrow>
      Field_Map h f = Inr None \<Longrightarrow>
      Inv fa ((h @ [MapNode (Some f) [] []])[f := FieldNode p nm pr (Some (length h)) rs])"
    and app: "\<And>fa h m p fs es head rs. create0 \<Longrightarrow> Inv fa h \<Longrightarrow>
      lookup h m = Some (MapNode p fs es) \<Longrightarrow> findField h fs head = Inr None \<Longrightarrow>
      Inv fa ((h @ [FieldNode (Some m) head None None rs])[m := MapNode p (fs @ [length h]) es])"
    and add: "\<And>fa h f p nm pr c rs. Inv fa h \<Longrightarrow> lookup h f = Some (FieldNode p nm pr c rs) \<Longrightarrow>
      Inv (fa @ [f]) h"
    and dgl: "\<And>fa h m i pat fa2. Inv fa h \<Longrightarrow> i < length kp0 \<Longrightarrow> Pattern (kp0 ! i) = Some pat \<Longrightarrow>
      doubleGlob x0 h m pat = Inr (fa2, True) \<Longrightarrow> Inv (fa @ fa2) h"
  shows "create = create0 \<Longrightarrow> x = x0 \<Longrightarrow> kp = kp0 \<Longrightarrow> Inv fa h \<Longrightarrow>
           ensureField x i kp refctx create m fa h = (e, fa', h') \<Longrightarrow> Inv fa' h'"
    and "create = create0 \<Longrightarrow> x = x0 \<Longrightarrow> kp = kp0 \<Longrightarrow> Inv fa h \<Longrightarrow>
           ensureField_range x i kp refctx create pat fs fa h = (e, fa', h') \<Longrightarrow> Inv fa' h'"
proof (induction x i kp refctx create m fa h and x i kp refctx create pat fs fa h
       arbitrary: e fa' h' and e fa' h' rule: ensureField_ensureField_range.induct)
  case (1 x i kp refctx create m fa h)
  note eq = \<open>ensureField x i kp refctx create m fa h = (e, fa', h')\<close>
  note inv = \<open>Inv fa h\<close> and cr = \<open>create = create0\<close>
    and xeq = \<open>x = x0\<close> and kpeq = \<open>kp = kp0\<close>
  show ?case
  proof (cases "length kp \<le> i")
    case True
    with eq inv show ?thesis by (simp add: ensureField.simps)
  next
    case inrange: False
    show ?thesis
    proof (cases "Pattern (kp ! i)")
      case (Some pat)
      show ?thesis
      proof (cases "doubleGlob x h m pat")
        case (Inl err)
        with eq inrange Some inv show ?thesis by (simp add: ensureField.simps)
      next
        case (Inr b)
        obtain fa2 ok where b: "b = (fa2, ok)" by (cases b)
        show ?thesis
        proof (cases ok)
          case True
          show ?thesis
          proof (cases "Suc i = length kp")
            case last: True
            have "doubleGlob x0 h m pat = Inr (fa2, True)"
              using Inr b True xeq by simp
            from dgl [OF inv _ Some [unfolded kpeq] this] inrange kpeq
            have "Inv (fa @ fa2) h" by simp
            with eq inrange Some Inr b True last show ?thesis by (simp add: ensureField.simps)
          next
            case notlast: False
            with eq inrange Some Inr b True
            have "ensureField_range x i kp refctx create None fa2 fa h = (e, fa', h')"
              by (simp add: ensureField.simps)
            from "1.IH"(3) [OF inrange Some Inr b [symmetric] True notlast cr xeq kpeq inv this]
            show ?thesis .
          qed
        next
          case False
          show ?thesis
          proof (cases "\<exists>p fs es. lookup h m = Some (MapNode p fs es)")
            case nomap: False
            with eq inrange Some Inr b False inv show ?thesis
              by (auto simp: ensureField.simps split: option.splits node.splits)
          next
            case True
            then obtain p fs es where m: "lookup h m = Some (MapNode p fs es)" by blast
            with eq inrange Some Inr b False
            have "ensureField_range x i kp refctx create (Some pat) fs fa h = (e, fa', h')"
              by (simp add: ensureField.simps)
            from "1.IH"(4) [OF inrange Some Inr b [symmetric] False m refl cr xeq kpeq inv this]
            show ?thesis .
          qed
        qed
      qed
    next
      case None
      define head0 where "head0 = ScalarString (kp ! i)"
      define reserved where "reserved = (ToLower head0 \<in> set (ReservedKeywords x))"
      define head where "head = (if reserved then ToLower head0 else head0)"
      note defs = head0_def reserved_def head_def
      show ?thesis
      proof (cases "(reserved \<and> head \<notin> set (CompositeReservedKeywords x) \<and> Suc i < length kp) \<or>
          head = ''_'' \<or> boardRootOnly h m head (head = ''classes'') \<noteq> None \<or>
          boardRootOnly h m head (findBoardKeyword x [head] \<noteq> - 1) \<noteq> None \<or>
          (\<nexists>p fs es. lookup h m = Some (MapNode p fs es))")
        case True
        with eq inrange None inv show ?thesis
          unfolding defs
          by (auto simp: ensureField.simps Let_def split: option.splits node.splits if_splits)
      next
        case False
        then have g1: "\<not> (reserved \<and> head \<notin> set (CompositeReservedKeywords x) \<and> Suc i < length kp)"
          and g2: "head \<noteq> ''_''"
          and g3: "boardRootOnly h m head (head = ''classes'') = None"
          and g4: "boardRootOnly h m head (findBoardKeyword x [head] \<noteq> - 1) = None"
          and "\<exists>p fs es. lookup h m = Some (MapNode p fs es)"
          by auto
        then obtain p fs es where m: "lookup h m = Some (MapNode p fs es)" by blast
        have eq': "(case findField h fs head of
                      Inl e \<Rightarrow> (Some e, fa, h)
                    | Inr (Some f) \<Rightarrow>
                        (let h1 = addReference h f (kp ! i) kp refctx in
                         if Suc i = length kp then (None, fa @ [f], h1)
                         else if isArray h1 (Composite (h1 ! f))
                           then (Some (Err ''cannot index into array''), fa, h1)
                         else
                           (case ensureMap h1 f of
                              (Inl e, h2) \<Rightarrow> (Some e, fa, h2)
                            | (Inr fm, h2) \<Rightarrow> ensureField x (Suc i) kp refctx create fm fa h2))
                    | Inr None \<Rightarrow>
                        if \<not> create then (None, fa, h)
                        else
                          (case alloc h (FieldNode (Some m) head None None []) of
                             (f, h0) \<Rightarrow>
                               (let h1 = addReference h0 f (kp ! i) kp refctx;
                                    h2 = h1[m := MapNode p (fs @ [f]) es]
                                in
                                if Suc i = length kp then (None, fa @ [f], h2)
                                else
                                  (case newMap h2 f of
                                     (fm, h3) \<Rightarrow>
                                       ensureField x (Suc i) kp refctx create fm fa h3)))) = (e, fa', h')"
          using eq inrange None g1 g2 g3 g4 m
          unfolding defs
          by (subst (asm) ensureField.simps) (simp add: Let_def)
        show ?thesis
        proof (cases "findField h fs head")
          case (Inl err)
          with eq' inv show ?thesis by simp
        next
          case (Inr found)
          show ?thesis
          proof (cases found)
            case (Some f)
            define h1 where "h1 = addReference h f (kp ! i) kp refctx"
            have inv1: "Inv fa h1"
              using addReference_cases [of h f "kp ! i" kp refctx] inv ref
              unfolding h1_def by auto
            have "\<exists>p nm pr c rs. lookup h1 f = Some (FieldNode p nm pr c rs)"
              using findField_Some [OF Inr [unfolded Some]] addReference_cases [of h f "kp ! i" kp refctx]
              unfolding h1_def by (auto simp: lookup_def split: if_splits)
            with add [OF inv1] have inv1': "Inv (fa @ [f]) h1" by blast
            show ?thesis
            proof (cases "Suc i = length kp \<or> isArray h1 (Composite (h1 ! f))")
              case True
              with eq' Inr Some inv1 inv1' show ?thesis
                unfolding h1_def by (auto simp: Let_def split: if_splits)
            next
              case False
              then have notlast: "Suc i \<noteq> length kp" and noarr: "\<not> isArray h1 (Composite (h1 ! f))"
                by auto
              obtain r h2 where em: "ensureMap h1 f = (r, h2)" by (cases "ensureMap h1 f")
              have inv2: "Inv fa h2"
                using ensureMap_cases [OF em] inv1 att by auto
              show ?thesis
              proof (cases r)
                case (Inl err)
                with eq' Inr Some notlast noarr em inv2 show ?thesis
                  unfolding h1_def by (auto simp: Let_def)
              next
                case fm: (Inr fm)
                with eq' Inr Some notlast noarr em
                have "ensureField x (Suc i) kp refctx create fm fa h2 = (e, fa', h')"
                  unfolding h1_def by (auto simp: Let_def)
                from "1.IH"(2) [OF inrange None refl refl refl g1 [unfolded defs] g2 [unfolded defs]
                    g3 [unfolded defs] g4 [unfolded defs] m refl Inr [unfolded defs] Some
                    h1_def notlast noarr em [symmetric] fm cr xeq kpeq inv2 this]
                show ?thesis .
              qed
            qed
          next
            case nf: None
            show ?thesis
            proof (cases create)
              case False
              with eq' Inr nf inv show ?thesis by simp
            next
              case True
              obtain f h0 where al: "alloc h (FieldNode (Some m) head None None []) = (f, h0)"
                by (cases "alloc h (FieldNode (Some m) head None None [])")
              then have f: "f = length h" and h0: "h0 = h @ [FieldNode (Some m) head None None []]"
                by (auto simp: alloc_def)
              define h1 where "h1 = addReference h0 f (kp ! i) kp refctx"
              define h2 where "h2 = h1[m := MapNode p (fs @ [f]) es]"
              from m have mlt: "m < length h" by (auto simp: lookup_def split: if_splits)
              have "\<exists>rs. h1 = h @ [FieldNode (Some m) head None None rs]"
                unfolding h1_def h0 f
                by (cases refctx) (simp_all add: addReference_def lookup_def)
              then obtain rs where h1: "h1 = h @ [FieldNode (Some m) head None None rs]" ..
              have inv2: "Inv fa h2"
                unfolding h2_def h1 f
                using app [OF _ inv m, of head rs] Inr nf True cr by simp
              have fnode: "lookup h2 f = Some (FieldNode (Some m) head None None rs)"
                unfolding h2_def h1 f using mlt by (simp add: lookup_def nth_append)
              show ?thesis
              proof (cases "Suc i = length kp")
                case last: True
                from add [OF inv2 fnode] have "Inv (fa @ [f]) h2" .
                with eq' Inr nf True al last show ?thesis
                  unfolding h2_def h1_def by (simp add: Let_def)
              next
                case notlast: False
                obtain fm h3 where nm: "newMap h2 f = (fm, h3)" by (cases "newMap h2 f")
                have "Field_Map h2 f = Inr None"
                  using fnode by (simp add: Field_Map_def)
                from att [OF inv2 fnode this] nm newMap_Field [OF fnode]
                have inv3: "Inv fa h3" by auto
                from eq' Inr nf True al notlast nm
                have "ensureField x (Suc i) kp refctx create fm fa h3 = (e, fa', h')"
                  unfolding h2_def h1_def by (simp add: Let_def)
                from "1.IH"(1) [OF inrange None refl refl refl g1 [unfolded defs] g2 [unfolded defs]
                    g3 [unfolded defs] g4 [unfolded defs] m refl Inr [unfolded defs] nf _
                    al [unfolded defs, symmetric] h1_def h2_def notlast nm [symmetric] cr xeq kpeq inv3 this] True
                show ?thesis by simp
              qed
            qed
          qed
        qed
      qed
    qed
  qed
next
  case (2 x i kp refctx create pat fa h)
  then show ?case by simp
next
  case (3 x i kp refctx create pat f fs fa h)
  note eq = \<open>ensureField_range x i kp refctx create pat (f # fs) fa h = (e, fa', h')\<close>
  note inv = \<open>Inv fa h\<close> and cr = \<open>create = create0\<close>
    and xeq = \<open>x = x0\<close> and kpeq = \<open>kp = kp0\<close>
  show ?case
  proof (cases "length kp \<le> i")
    case True
    with eq inv show ?thesis by simp
  next
    case inrange: False
    show ?thesis
    proof (cases "\<exists>p nm pr c rs. lookup h f = Some (FieldNode p nm pr c rs)")
      case False
      with eq inrange inv show ?thesis
        by (auto split: option.splits node.splits)
    next
      case True
      then obtain p nm pr c rs where f: "lookup h f = Some (FieldNode p nm pr c rs)" by blast
      show ?thesis
      proof (cases "case pat of None \<Rightarrow> True | Some pt \<Rightarrow> matchPattern x nm pt")
        case nomatch: False
        with eq inrange f have "ensureField_range x i kp refctx create pat fs fa h = (e, fa', h')"
          by simp
        from "3.IH"(4) [OF inrange f refl nomatch cr xeq kpeq inv this] show ?thesis .
      next
        case match: True
        show ?thesis
        proof (cases "Suc i = length kp \<and> pat \<noteq> None")
          case last: True
          with eq inrange f match
          have "ensureField_range x i kp refctx create pat fs (fa @ [f]) h = (e, fa', h')"
            by simp
          from "3.IH"(1) [OF inrange f refl match last cr xeq kpeq add [OF inv f] this] show ?thesis .
        next
          case notlast: False
          obtain r h1 where em: "ensureMap h f = (r, h1)" by (cases "ensureMap h f")
          have inv1: "Inv fa h1"
            using ensureMap_cases [OF em] inv att by auto
          show ?thesis
          proof (cases r)
            case (Inl err)
            with eq inrange f match notlast em inv1 show ?thesis by auto
          next
            case (Inr fm)
            obtain e1 fa1 h2 where ef: "ensureField x (Suc i) kp refctx create fm fa h1 = (e1, fa1, h2)"
              by (cases "ensureField x (Suc i) kp refctx create fm fa h1")
            have inv2: "Inv fa1 h2"
              using "3.IH"(2) [OF inrange f refl match notlast em [symmetric] Inr cr xeq kpeq inv1 ef] .
            show ?thesis
            proof (cases e1)
              case (Some err)
              with eq inrange f match notlast em Inr ef inv2 show ?thesis by auto
            next
              case None
              with eq inrange f match notlast em Inr ef
              have "ensureField_range x i kp refctx create pat fs fa1 h2 = (e, fa', h')"
                by auto
              from "3.IH"(3) [OF inrange f refl match notlast em [symmetric] Inr _ _ _ cr xeq kpeq inv2 this]
                ef None
              show ?thesis by auto
            qed
          qed
        qed
      qed
    qed
  qed
qed
section \<open>Queries do not create fields\<close>

lemma onlyMapsAttached_nth:
  "onlyMapsAttached h h' \<longleftrightarrow>
     length h \<le> length h' \<and>
     (\<forall>a<length h. keepsNode (length h) (h ! a) (h' ! a)) \<and>
     (\<forall>a. length h \<le> a \<and> a < length h' \<longrightarrow> emptyMap (h' ! a))"
proof -
  have "list_all emptyMap (drop (length h) h') \<longleftrightarrow>
        (\<forall>a. length h \<le> a \<and> a < length h' \<longrightarrow> emptyMap (h' ! a))"
  proof
    assume l: "list_all emptyMap (drop (length h) h')"
    show "\<forall>a. length h \<le> a \<and> a < length h' \<longrightarrow> emptyMap (h' ! a)"
    proof (intro allI impI)
      fix a assume a: "length h \<le> a \<and> a < length h'"
      then have "h' ! a = drop (length h) h' ! (a - length h)" by simp
      moreover have "a - length h < length (drop (length h) h')" using a by auto
      ultimately show "emptyMap (h' ! a)"
        using l by (metis list_all_length)
    qed
  next
    assume r: "\<forall>a. length h \<le> a \<and> a < length h' \<longrightarrow> emptyMap (h' ! a)"
    show "list_all emptyMap (drop (length h) h')"
      unfolding list_all_length using r by auto
  qed
  then show ?thesis
    by (auto simp: onlyMapsAttached_def list_all2_conv_all_nth)
qed

lemma onlyMapsAttached_refl: "onlyMapsAttached h h"
  by (auto simp: onlyMapsAttached_nth keepsNode_def split: node.splits)

lemma onlyMapsAttached_reference:
  assumes R: "onlyMapsAttached h0 h" and f: "lookup h f = Some (FieldNode p nm pr c rs)"
  shows "onlyMapsAttached h0 (h[f := FieldNode p nm pr c (rs @ [r])])"
proof -
  from f have flt: "f < length h" and hf: "h ! f = FieldNode p nm pr c rs"
    by (auto simp: lookup_def split: if_splits)
  from R have len: "length h0 \<le> length h"
    and old: "\<And>a. a < length h0 \<Longrightarrow> keepsNode (length h0) (h0 ! a) (h ! a)"
    and new: "\<And>a. length h0 \<le> a \<Longrightarrow> a < length h \<Longrightarrow> emptyMap (h ! a)"
    by (auto simp: onlyMapsAttached_nth)
  have "keepsNode (length h0) (h0 ! a) (h[f := FieldNode p nm pr c (rs @ [r])] ! a)"
    if a: "a < length h0" for a
  proof (cases "a = f")
    case False
    with old [OF a] show ?thesis by simp
  next
    case True
    from old [OF a] hf True obtain c0 rs0 where
      o: "h0 ! f = FieldNode p nm pr c0 rs0" and t: "take (length rs0) rs = rs0"
      and c: "c = c0 \<or> (case c of None \<Rightarrow> False | Some b \<Rightarrow> length h0 \<le> b)"
      by (auto simp: keepsNode_def split: node.splits)
    have "length (take (length rs0) rs) = length rs0"
      using t by simp
    then have "length rs0 \<le> length rs"
      by simp
    with t have "take (length rs0) (rs @ [r]) = rs0" by simp
    with o c True flt show ?thesis
      by (simp add: keepsNode_def)
  qed
  moreover have "emptyMap (h[f := FieldNode p nm pr c (rs @ [r])] ! a)"
    if "length h0 \<le> a" "a < length h" for a
  proof -
    from new [OF that] hf have "a \<noteq> f" by (auto simp: emptyMap_def)
    with new [OF that] show ?thesis by simp
  qed
  ultimately show ?thesis
    using len by (simp add: onlyMapsAttached_nth)
qed

lemma onlyMapsAttached_attach:
  assumes R: "onlyMapsAttached h0 h" and f: "lookup h f = Some (FieldNode p nm pr c rs)"
  shows "onlyMapsAttached h0
           ((h @ [MapNode (Some f) [] []])[f := FieldNode p nm pr (Some (length h)) rs])"
proof -
  let ?h' = "(h @ [MapNode (Some f) [] []])[f := FieldNode p nm pr (Some (length h)) rs]"
  from f have flt: "f < length h" and hf: "h ! f = FieldNode p nm pr c rs"
    by (auto simp: lookup_def split: if_splits)
  from R have len: "length h0 \<le> length h"
    and old: "\<And>a. a < length h0 \<Longrightarrow> keepsNode (length h0) (h0 ! a) (h ! a)"
    and new: "\<And>a. length h0 \<le> a \<Longrightarrow> a < length h \<Longrightarrow> emptyMap (h ! a)"
    by (auto simp: onlyMapsAttached_nth)
  have "keepsNode (length h0) (h0 ! a) (?h' ! a)" if a: "a < length h0" for a
  proof (cases "a = f")
    case False
    with old [OF a] a len show ?thesis by (simp add: nth_append)
  next
    case True
    from old [OF a] hf True obtain c0 rs0 where
      o: "h0 ! f = FieldNode p nm pr c0 rs0" and t: "take (length rs0) rs = rs0"
      by (auto simp: keepsNode_def split: node.splits)
    with True flt len show ?thesis
      by (simp add: keepsNode_def)
  qed
  moreover have "emptyMap (?h' ! a)" if "length h0 \<le> a" "a < length ?h'" for a
  proof (cases "a < length h")
    case True
    from new [OF that(1) True] hf have "a \<noteq> f" by (auto simp: emptyMap_def)
    with new [OF that(1) True] True show ?thesis by (simp add: nth_append)
  next
    case False
    with that flt have "a = length h" "a \<noteq> f" by auto
    then show ?thesis by (simp add: emptyMap_def)
  qed
  ultimately show ?thesis
    using len by (simp add: onlyMapsAttached_nth)
qed

lemma lookup_update_Field:
  "lookup h f = Some (FieldNode p nm pr c rs) \<Longrightarrow> is_Field (lookup h g) \<Longrightarrow>
   is_Field (lookup (h[f := FieldNode p' nm' pr' c' rs']) g)"
  by (cases "g = f") (auto simp: lookup_def split: if_splits)

lemma lookup_append_old:
  "lookup h f = Some n \<Longrightarrow> lookup (h @ [nd]) f = Some n"
  by (auto simp: lookup_def nth_append split: if_splits)

lemma lookup_append_Field:
  "is_Field (lookup h g) \<Longrightarrow> is_Field (lookup (h @ [nd]) g)"
  by (auto simp: lookup_def nth_append split: if_splits)

text \<open>
  With \<open>create\<close> unset and no double glob among the segments, \<open>ensureField\<close>
  attaches Maps and adds references, nothing else, and what it appends to its
  result are Fields of the store.
\<close>

lemma ensureField_query:
  assumes nodg: "\<forall>sb\<in>set kp. \<forall>pat. Pattern sb = Some pat \<longrightarrow>
      (\<forall>h m. \<exists>fa2. doubleGlob x h m pat = Inr (fa2, False))"
    and R: "onlyMapsAttached h0 h" and fa: "\<forall>f\<in>set fa. is_Field (lookup h f)"
    and eq: "ensureField x i kp refctx False m fa h = (e, fa', h')"
  shows "onlyMapsAttached h0 h' \<and> (\<forall>f\<in>set fa'. is_Field (lookup h' f))"
proof -
  define Inv where "Inv = (\<lambda>fa h. onlyMapsAttached h0 h \<and> (\<forall>f\<in>set fa. is_Field (lookup h f)))"
  have "Inv fa' h'"
  proof (rule ensureField_ensureField_range_keeps(1)
      [where Inv = Inv and create0 = False and x0 = x and kp0 = kp, OF _ _ _ _ _ refl refl refl _ eq])
    show "Inv fa h" using R fa by (simp add: Inv_def)
  next
    fix fa h f p nm pr c rs r
    assume "Inv fa h" "lookup h f = Some (FieldNode p nm pr c rs)"
    then show "Inv fa (h[f := FieldNode p nm pr c (rs @ [r])])"
      by (auto simp: Inv_def intro: onlyMapsAttached_reference lookup_update_Field)
  next
    fix fa h f p nm pr c rs
    assume "Inv fa h" "lookup h f = Some (FieldNode p nm pr c rs)"
    then show "Inv fa ((h @ [MapNode (Some f) [] []])[f := FieldNode p nm pr (Some (length h)) rs])"
      unfolding Inv_def
      by (blast intro: onlyMapsAttached_attach lookup_update_Field lookup_append_Field
            lookup_append_old)
  next
    fix fa h f p nm pr c rs
    assume "Inv fa h" "lookup h f = Some (FieldNode p nm pr c rs)"
    then show "Inv (fa @ [f]) h"
      by (simp add: Inv_def)
  next
    fix fa h m i pat fa2
    assume "i < length kp" "Pattern (kp ! i) = Some pat" "doubleGlob x h m pat = Inr (fa2, True)"
    with nodg show "Inv (fa @ fa2) h"
      by (metis Inr_inject nth_mem prod.inject)
  qed simp
  then show ?thesis by (simp add: Inv_def)
qed

lemma onlyMapsAttached_Field_old:
  assumes "onlyMapsAttached h h'" and "is_Field (lookup h' f)"
  shows "f < length h \<and> is_Field (lookup h f)"
proof -
  from assms(2) obtain p nm pr c rs where f: "f < length h'" "h' ! f = FieldNode p nm pr c rs"
    by (auto simp: lookup_def elim!: is_Field.elims split: if_splits)
  have "f < length h"
  proof (rule ccontr)
    assume "\<not> f < length h"
    with assms(1) f(1) have "emptyMap (h' ! f)" by (simp add: onlyMapsAttached_nth)
    with f(2) show False by (simp add: emptyMap_def)
  qed
  moreover from this assms(1) have "keepsNode (length h) (h ! f) (h' ! f)"
    by (simp add: onlyMapsAttached_nth)
  with f(2) have "is_Field (Some (h ! f))"
    by (auto simp: keepsNode_def split: node.splits)
  ultimately show ?thesis by (simp add: lookup_def)
qed

lemma EnsureField_tree_field_a:
  "EnsureField ext0 tree_field_a 1 [lit ''a'', lit ''b''] None False = (None, [], tree_field_a_map)"
  by code_simp

text \<open>
  Claim C10.  Let no segment of the key path be a double glob (for a segment with
  a pattern, \<^verbatim>\<open>doubleGlob\<close> answers that it is none).  Then \<open>EnsureField\<close> with
  \<open>create\<close> unset, whatever the Map, the path and the reference context and
  whether or not it ends in an error, leaves every Map of the store with the
  Fields it had, allocates nothing but empty Maps, and returns only Fields that
  existed before the call.  It is not read-only: there is a call that finds a
  Field without composite on its way and leaves it with a new empty Map as its
  composite.
\<close>

theorem EnsureField_query_frame:
  assumes "\<forall>sb\<in>set kp. \<forall>pat. Pattern sb = Some pat \<longrightarrow>
      (\<forall>h m. \<exists>fa2. doubleGlob x h m pat = Inr (fa2, False))"
    and "EnsureField x h m kp refctx False = (e, fa, h')"
  shows "onlyMapsAttached h h' \<and>
         (\<forall>f\<in>set fa. f < length h \<and> is_Field (lookup h f)) \<and>
         (\<exists>h m kp f p nm pr rs h'.
            lookup h f = Some (FieldNode p nm pr None rs) \<and>
            EnsureField ext0 h m kp None False = (None, [], h') \<and>
            lookup h' f = Some (FieldNode p nm pr (Some (length h)) rs) \<and>
            lookup h' (length h) = Some (MapNode (Some f) [] []))"
proof -
  have q: "onlyMapsAttached h h' \<and> (\<forall>f\<in>set fa. is_Field (lookup h' f))"
  proof (cases "EnsureField_underscores h kp 0 m")
    case (Inl err)
    with assms(2) show ?thesis
      by (auto simp: EnsureField_def onlyMapsAttached_refl)
  next
    case (Inr im)
    obtain i m' where "im = (i, m')" by (cases im)
    with Inr assms(2) have "ensureField x i kp refctx False m' [] h = (e, fa, h')"
      by (simp add: EnsureField_def)
    from ensureField_query [OF assms(1) onlyMapsAttached_refl _ this] show ?thesis
      by simp
  qed
  have "lookup tree_field_a 3 = Some (FieldNode (Some 1) ''a'' None None []) \<and>
        lookup tree_field_a_map 3 = Some (FieldNode (Some 1) ''a'' None (Some (length tree_field_a)) []) \<and>
        lookup tree_field_a_map (length tree_field_a) = Some (MapNode (Some 3) [] [])"
    by (simp add: tree_field_a_def tree_field_a_map_def lookup_def)
  with EnsureField_tree_field_a have
    "\<exists>h m kp f p nm pr rs h'.
        lookup h f = Some (FieldNode p nm pr None rs) \<and>
        EnsureField ext0 h m kp None False = (None, [], h') \<and>
        lookup h' f = Some (FieldNode p nm pr (Some (length h)) rs) \<and>
        lookup h' (length h) = Some (MapNode (Some f) [] [])"
    by blast
  with q show ?thesis
    by (blast dest: onlyMapsAttached_Field_old)
qed

theorem EnsureField_query_frame_witness:
  "EnsureField ext0 tree_field_a 1 [star] None False = (None, [3], tree_field_a) \<and>
   onlyMapsAttached tree_field_a tree_field_a \<and>
   3 < length tree_field_a \<and> is_Field (lookup tree_field_a 3)"
proof -
  have nodg: "\<forall>sb\<in>set [star]. \<forall>pat. Pattern sb = Some pat \<longrightarrow>
      (\<forall>h m. \<exists>fa2. doubleGlob ext0 h m pat = Inr (fa2, False))"
    by (simp add: ext0_def)
  have eq: "EnsureField ext0 tree_field_a 1 [star] None False = (None, [3], tree_field_a)"
    by code_simp
  from EnsureField_query_frame [OF nodg eq] eq show ?thesis
    by simp
qed

end
